theory Spec2Isabelle
  imports Complex_Main "HOL-Library.Multiset"
begin

section \<open>Parsed XML values\<close>

text \<open>
  The parser walks the value that xml2js builds with \<open>explicitArray: false\<close> and
  \<open>mergeAttrs: true\<close>: an element with text only is a string, an element with children or
  attributes is an object keyed by child and attribute names (its own text under the key
  \<open>_\<close>), and a repeated child is an array. An empty element is the empty string. Such a
  value never holds \<open>null\<close> or \<open>undefined\<close>; both appear only as results of lookups and
  are the \<open>None\<close> of an option here.

  An object has a prototype: a plain object inherits from \<open>Object.prototype\<close>, an object
  made with \<open>Object.create(null)\<close> inherits nothing. The XML library builds plain
  objects; the other kind is a value here as well, so that what a conversion to a string
  does with it is part of the model. The parser itself never looks at the prototype.
\<close>

datatype prototype = ObjectPrototype | NullPrototype

datatype jsval = Str string | Arr "jsval list" | Obj prototype "(string \<times> jsval) list"

text \<open>JavaScript truthiness: of these values only the empty string is falsy.\<close>

fun truthy :: "jsval \<Rightarrow> bool" where
  "truthy (Str s) = (s \<noteq> [])"
| "truthy (Arr xs) = True"
| "truthy (Obj p kvs) = True"

text \<open>
  Property access \<open>v[k]\<close> for an element or attribute name \<open>k\<close>: strings and arrays have
  no such property (the names the parser asks for are never \<open>length\<close> or an index, nor
  a name that a plain object inherits).
\<close>

fun getProp :: "jsval \<Rightarrow> string \<Rightarrow> jsval option" where
  "getProp (Obj p kvs) k = map_of kvs k"
| "getProp (Arr xs) k = None"
| "getProp (Str s) k = None"

text \<open>The guard \<open>v.k\<close> used as a condition: the property when it is truthy.\<close>

definition truthyProp :: "jsval \<Rightarrow> string \<Rightarrow> jsval option" where
  "truthyProp v k = (case getProp v k of None \<Rightarrow> None | Some d \<Rightarrow> if truthy d then Some d else None)"

text \<open>The nullish coalescing operator \<open>a ?? b\<close>.\<close>

definition orElse :: "'a option \<Rightarrow> 'a option \<Rightarrow> 'a option" where
  "orElse a b = (case a of None \<Rightarrow> b | Some x \<Rightarrow> Some x)"

text \<open>
  \<open>get(obj, path)\<close>: the reduction
  \<open>(acc, key) => (acc && acc[key] !== undefined ? acc[key] : null)\<close> from \<open>obj\<close>, then
  \<open>?? fallback\<close> with the default fallback \<open>null\<close>.
\<close>

definition get :: "jsval \<Rightarrow> string list \<Rightarrow> jsval option" where
  "get obj path =
     foldl (\<lambda>acc key. case acc of None \<Rightarrow> None
                              | Some a \<Rightarrow> if truthy a then getProp a key else None)
           (Some obj) path"

text \<open>\<open>Array.isArray(x) ? x : [x]\<close>\<close>

fun arrayOf :: "jsval \<Rightarrow> jsval list" where
  "arrayOf (Arr xs) = xs"
| "arrayOf (Str s) = [Str s]"
| "arrayOf (Obj p kvs) = [Obj p kvs]"

subsection \<open>Errors\<close>

text \<open>
  What the parser throws: its own \<open>Camt053ParserError\<close> with a message, a \<open>TypeError\<close>
  of the runtime, or an error that one of its libraries throws and it does not catch
  (\<open>OtherError\<close> with that error's message). A computation that may throw returns \<open>Inl\<close>
  of the error or \<open>Inr\<close> of its value.
\<close>

datatype error = Camt053ParserError string | TypeError | OtherError string

definition andThen :: "error + 'a \<Rightarrow> ('a \<Rightarrow> error + 'b) \<Rightarrow> error + 'b" where
  "andThen r f = (case r of Inl e \<Rightarrow> Inl e | Inr x \<Rightarrow> f x)"

text \<open>\<open>xs.map(f)\<close> for an \<open>f\<close> that may throw: the first throw ends the loop.\<close>

fun mapE :: "('a \<Rightarrow> error + 'b) \<Rightarrow> 'a list \<Rightarrow> error + 'b list" where
  "mapE f [] = Inr []"
| "mapE f (x # xs) =
     (case f x of
        Inl e \<Rightarrow> Inl e
      | Inr y \<Rightarrow> (case mapE f xs of Inl e \<Rightarrow> Inl e | Inr ys \<Rightarrow> Inr (y # ys)))"

subsection \<open>Conversion to strings\<close>

fun join :: "string \<Rightarrow> string list \<Rightarrow> string" where
  "join sep [] = []"
| "join sep [x] = x"
| "join sep (x # y # ys) = x @ sep @ join sep (y # ys)"

text \<open>
  \<open>ToString\<close> of a parsed value, \<open>None\<close> when it throws a \<open>TypeError\<close>. A string is
  itself and an array joins the strings of its elements with a comma. A plain object
  prints as \<open>[object Object]\<close> through the \<open>toString\<close> it inherits, unless a child
  named \<open>toString\<close> hides that method; an object without prototype has no method to
  convert it, and the conversion throws.
\<close>

fun toStr :: "jsval \<Rightarrow> string option" and toStrs :: "jsval list \<Rightarrow> string list option" where
  "toStr (Str s) = Some s"
| "toStr (Arr xs) = map_option (join '','') (toStrs xs)"
| "toStr (Obj p kvs) =
     (if p = ObjectPrototype \<and> map_of kvs ''toString'' = None then Some ''[object Object]'' else None)"
| "toStrs [] = Some []"
| "toStrs (x # xs) =
     (case toStr x of
        None \<Rightarrow> None
      | Some s \<Rightarrow> (case toStrs xs of None \<Rightarrow> None | Some ss \<Rightarrow> Some (s # ss)))"

subsection \<open>Numbers\<close>

text \<open>
  A JavaScript number read from decimal text. \<open>Num r\<close> stands for the double nearest to the
  rational \<open>r\<close>; the rounding to 53 bits, overflow to infinity and the sign of zero are not
  modelled.
\<close>

datatype jsnum = NaN | PosInfinity | NegInfinity | Num rat

definition isDigit :: "char \<Rightarrow> bool" where
  "isDigit c = (c \<in> set ''0123456789'')"

definition isSpace :: "char \<Rightarrow> bool" where
  "isSpace c = (c \<in> set [CHR '' '', CHR 0x09, CHR 0x0A, CHR 0x0B, CHR 0x0C, CHR 0x0D])"

definition decVal :: "string \<Rightarrow> nat" where
  "decVal ds = foldl (\<lambda>acc c. 10 * acc + (of_char c - 48)) 0 ds"

text \<open>An optional sign: whether it is a minus, and the rest.\<close>

fun signOf :: "string \<Rightarrow> bool \<times> string" where
  "signOf [] = (False, [])"
| "signOf (c # cs) =
     (if c = CHR ''-'' then (True, cs) else if c = CHR ''+'' then (False, cs) else (False, c # cs))"

definition signed :: "bool \<Rightarrow> rat \<Rightarrow> rat" where
  "signed neg r = (if neg then - r else r)"

text \<open>The exponent part \<open>e[+-]digits\<close>, when one follows; 0 otherwise.\<close>

fun exponentOf :: "string \<Rightarrow> int" where
  "exponentOf [] = 0"
| "exponentOf (c # cs) =
     (if c = CHR ''e'' \<or> c = CHR ''E''
      then (let (neg, r) = signOf cs; ds = takeWhile isDigit r
            in if ds = [] then 0 else if neg then - int (decVal ds) else int (decVal ds))
      else 0)"

definition scale10 :: "rat \<Rightarrow> int \<Rightarrow> rat" where
  "scale10 r e = (if 0 \<le> e then r * 10 ^ nat e else r / 10 ^ nat (- e))"

text \<open>
  \<open>parseFloat\<close>: leading white space is skipped, then the longest prefix that is a decimal
  literal is read; \<open>NaN\<close> when there is none.
\<close>

definition parseFloat :: "string \<Rightarrow> jsnum" where
  "parseFloat s =
     (let (neg, u) = signOf (dropWhile isSpace s) in
      if take 8 u = ''Infinity'' then (if neg then NegInfinity else PosInfinity)
      else
        let ip = takeWhile isDigit u;
            r1 = dropWhile isDigit u;
            dot = (r1 \<noteq> [] \<and> hd r1 = CHR ''.'');
            fp = (if dot then takeWhile isDigit (tl r1) else []);
            r2 = (if dot then dropWhile isDigit (tl r1) else r1)
        in if ip = [] \<and> fp = [] then NaN
           else Num (signed neg (scale10 (of_nat (decVal (ip @ fp))) (exponentOf r2 - int (length fp)))))"

text \<open>\<open>parseInt(s, 10)\<close>\<close>

definition parseInt :: "string \<Rightarrow> jsnum" where
  "parseInt s =
     (let (neg, u) = signOf (dropWhile isSpace s); ds = takeWhile isDigit u
      in if ds = [] then NaN else Num (signed neg (of_nat (decVal ds))))"

text \<open>
  \<open>parseFloat(v)\<close> and \<open>parseInt(v, 10)\<close> for a parsed value \<open>v\<close>: the value is converted
  to a string first.
\<close>

definition parseFloatV :: "jsval \<Rightarrow> error + jsnum" where
  "parseFloatV v = (case toStr v of None \<Rightarrow> Inl TypeError | Some s \<Rightarrow> Inr (parseFloat s))"

definition parseIntV :: "jsval \<Rightarrow> error + jsnum" where
  "parseIntV v = (case toStr v of None \<Rightarrow> Inl TypeError | Some s \<Rightarrow> Inr (parseInt s))"

section \<open>Scalar extractors\<close>

text \<open>The first match of \<open>/\d{4}-\d{2}-\d{2}/\<close> in a string.\<close>

definition isDateAt :: "string \<Rightarrow> bool" where
  "isDateAt s =
     (10 \<le> length s \<and> list_all isDigit (take 4 s) \<and> s ! 4 = CHR ''-'' \<and>
      list_all isDigit (take 2 (drop 5 s)) \<and> s ! 7 = CHR ''-'' \<and>
      list_all isDigit (take 2 (drop 8 s)))"

fun matchDate :: "string \<Rightarrow> string option" where
  "matchDate [] = None"
| "matchDate (c # cs) = (if isDateAt (c # cs) then Some (take 10 (c # cs)) else matchDate cs)"

lemma size_map_of: "map_of kvs k = Some v \<Longrightarrow> size v < size (Obj p kvs)"
  by (induction kvs) (auto split: if_splits)

lemma truthyProp_size: "truthyProp (Obj p kvs) k = Some d \<Longrightarrow> size d < size (Obj p kvs)"
  by (auto simp: truthyProp_def split: option.splits if_splits dest: size_map_of)

text \<open>\<open>extractDate\<close> on a value that is not \<open>null\<close>.\<close>

function extractDateV :: "jsval \<Rightarrow> string option" where
  "extractDateV (Str s) = matchDate s"
| "extractDateV (Arr xs) = None"
| "extractDateV (Obj p kvs) =
     (case truthyProp (Obj p kvs) ''Dt'' of
        Some d \<Rightarrow> extractDateV d
      | None \<Rightarrow> (case truthyProp (Obj p kvs) ''DtTm'' of Some d \<Rightarrow> extractDateV d | None \<Rightarrow> None))"
  by pat_completeness auto
termination
  by (relation "measure size") (auto dest: truthyProp_size)

definition extractDate :: "jsval option \<Rightarrow> string option" where
  "extractDate obj = (case obj of None \<Rightarrow> None | Some v \<Rightarrow> extractDateV v)"

definition extractAmount :: "jsval option \<Rightarrow> error + jsnum option" where
  "extractAmount obj =
     (case obj of
        None \<Rightarrow> Inr None
      | Some (Str s) \<Rightarrow> Inr (if s = [] then None else Some (parseFloat s))
      | Some v \<Rightarrow>
          (case truthyProp v ''_'' of
             Some t \<Rightarrow> andThen (parseFloatV t) (\<lambda>n. Inr (Some n))
           | None \<Rightarrow> Inr None))"

section \<open>Output records\<close>

datatype direction = credit | debit

record transaction =
  date :: "string option"
  amount :: "jsnum option"
  txCurrency :: jsval
  txType :: "direction option"
  counterpartyName :: "jsval option"
  counterpartyAccountIBAN :: "jsval option"
  description :: "jsval option"
  descriptionAdditional :: "string option"
  endToEndReference :: "jsval option"
  remittanceReference :: "jsval option"
  purpose :: "jsval option"

record statement =
  statementTitle :: string
  accountHolder :: "jsval option"
  accountIBAN :: "jsval option"
  currency :: string
  statementDate :: string
  sequenceNumber :: "jsnum option"
  openingBalance :: "jsnum option"
  closingBalance :: "jsnum option"
  numberOfCredits :: "jsnum option"
  totalCredits :: "jsnum option"
  numberOfDebits :: "jsnum option"
  totalDebits :: "jsnum option"
  transactions :: "transaction list"

section \<open>Entry and transaction flattener\<close>

text \<open>
  A transaction-detail block is \<open>Some t\<close>; the synthetic detail of an entry without
  details is \<open>None\<close> (the source's \<open>null\<close>).
\<close>

definition truthyO :: "jsval option \<Rightarrow> bool" where
  "truthyO x = (case x of None \<Rightarrow> False | Some v \<Rightarrow> truthy v)"

text \<open>\<open>txDtls ? get(txDtls, path) : null\<close>\<close>

definition getTx :: "jsval option \<Rightarrow> string list \<Rightarrow> jsval option" where
  "getTx txDtls path = (case txDtls of None \<Rightarrow> None | Some t \<Rightarrow> if truthy t then get t path else None)"

text \<open>\<open>txDtls && txDtls.RltdPties\<close>\<close>

definition hasRltdPties :: "jsval option \<Rightarrow> bool" where
  "hasRltdPties txDtls =
     (case txDtls of None \<Rightarrow> False | Some t \<Rightarrow> truthy t \<and> truthyO (getProp t ''RltdPties''))"

definition partyName :: "direction option \<Rightarrow> jsval option \<Rightarrow> jsval option" where
  "partyName ntryType txDtls =
     (if hasRltdPties txDtls then
        (case ntryType of
           Some credit \<Rightarrow> orElse (getTx txDtls [''RltdPties'', ''Dbtr'', ''Nm''])
                                (getTx txDtls [''RltdPties'', ''Dbtr'', ''Pty'', ''Nm''])
         | Some debit \<Rightarrow> orElse (getTx txDtls [''RltdPties'', ''Cdtr'', ''Nm''])
                               (getTx txDtls [''RltdPties'', ''Cdtr'', ''Pty'', ''Nm''])
         | None \<Rightarrow> None)
      else None)"

definition partyAccount :: "direction option \<Rightarrow> jsval option \<Rightarrow> jsval option" where
  "partyAccount ntryType txDtls =
     (if hasRltdPties txDtls then
        (case ntryType of
           Some credit \<Rightarrow> orElse (getTx txDtls [''RltdPties'', ''DbtrAcct'', ''Id'', ''IBAN''])
                                (getTx txDtls [''RltdPties'', ''DbtrAcct'', ''Id'', ''Othr'', ''Id''])
         | Some debit \<Rightarrow> orElse (getTx txDtls [''RltdPties'', ''CdtrAcct'', ''Id'', ''IBAN''])
                               (getTx txDtls [''RltdPties'', ''CdtrAcct'', ''Id'', ''Othr'', ''Id''])
         | None \<Rightarrow> None)
      else None)"

definition counterpartyNameOf :: "jsval \<Rightarrow> direction option \<Rightarrow> jsval option \<Rightarrow> jsval option" where
  "counterpartyNameOf ntry ntryType txDtls =
     (let name = partyName ntryType txDtls in
      if truthyO name then name
      else orElse (get ntry [''AcctSvcrRef''])
             (orElse (get ntry [''NtryRef'']) (getTx txDtls [''Refs'', ''Prtry'', ''Ref''])))"

definition counterpartyAccountOf :: "jsval \<Rightarrow> direction option \<Rightarrow> jsval option \<Rightarrow> jsval option" where
  "counterpartyAccountOf ntry ntryType txDtls =
     (let acct = partyAccount ntryType txDtls in
      if truthyO acct then acct
      else orElse (getTx txDtls [''Refs'', ''Prtry'', ''Ref'']) (get ntry [''NtryRef'']))"

definition endToEndReferenceOf :: "jsval \<Rightarrow> jsval option \<Rightarrow> jsval option" where
  "endToEndReferenceOf ntry txDtls =
     (let e = getTx txDtls [''Refs'', ''EndToEndId''] in
      if truthyO e then e
      else orElse (getTx txDtls [''Refs'', ''ClrSysRef''])
             (orElse (getTx txDtls [''Refs'', ''Prtry'', ''Ref'']) (get ntry [''NtryRef''])))"

text \<open>\<open>strd = txDtls ? get(txDtls, ['RmtInf', 'Strd']) : null\<close>, kept when truthy.\<close>

definition strdOf :: "jsval option \<Rightarrow> jsval option" where
  "strdOf txDtls =
     (case getTx txDtls [''RmtInf'', ''Strd''] of
        None \<Rightarrow> None
      | Some s \<Rightarrow> if truthy s then Some s else None)"

definition remittanceReferenceOf :: "jsval option \<Rightarrow> jsval option" where
  "remittanceReferenceOf txDtls =
     (case strdOf txDtls of
        None \<Rightarrow> None
      | Some strd \<Rightarrow>
          (case (case truthyProp strd ''CdtrRefInf'' of
                   Some c \<Rightarrow> truthyProp c ''Ref''
                 | None \<Rightarrow> None) of
             Some r \<Rightarrow> Some r
           | None \<Rightarrow> orElse (get strd [''RfrdDocInf'', ''Nb''])
                        (get strd [''RfrdDocInf'', ''Tp'', ''CdOrPrtry'', ''Cd''])))"

text \<open>\<open>if (v) descriptionParts.push(v)\<close>\<close>

definition pushIf :: "jsval list \<Rightarrow> jsval option \<Rightarrow> jsval list" where
  "pushIf parts v = (case v of None \<Rightarrow> parts | Some x \<Rightarrow> if truthy x then parts @ [x] else parts)"

definition descriptionParts :: "jsval \<Rightarrow> jsval \<Rightarrow> jsval option \<Rightarrow> jsval list" where
  "descriptionParts stmt ntry txDtls =
     (let p1 = pushIf [] (getTx txDtls [''RmtInf'', ''Ustrd'']);
          p2 = (case strdOf txDtls of
                  Some strd \<Rightarrow> pushIf p1 (getProp strd ''AddtlRmtInf'')
                | None \<Rightarrow> p1);
          p3 = pushIf p2 (get ntry [''AddtlNtryInf'']);
          p4 = pushIf p3 (getTx txDtls [''AddtlTxInf''])
      in if p4 = []
         then pushIf p4 (orElse (get ntry [''AcctSvcrRef''])
                           (orElse (getTx txDtls [''Refs'', ''InstrId'']) (get stmt [''Id''])))
         else p4)"

definition descriptionOf :: "jsval list \<Rightarrow> jsval option" where
  "descriptionOf parts = (case filter truthy parts of [] \<Rightarrow> None | x # rest \<Rightarrow> Some x)"

text \<open>\<open>filteredParts.slice(1).join(' | ')\<close> converts every remaining part to a string.\<close>

definition descriptionAdditionalOf :: "jsval list \<Rightarrow> error + string option" where
  "descriptionAdditionalOf parts =
     (case filter truthy parts of
        [] \<Rightarrow> Inr None
      | x # rest \<Rightarrow>
          if rest = [] then Inr None
          else (case toStrs rest of
                  None \<Rightarrow> Inl TypeError
                | Some texts \<Rightarrow> Inr (Some (join '' | '' texts))))"

definition ntryTypeOf :: "jsval \<Rightarrow> direction option" where
  "ntryTypeOf ntry =
     (let ntryTypeRaw = get ntry [''CdtDbtInd''] in
      if ntryTypeRaw = Some (Str ''CRDT'') then Some credit
      else if ntryTypeRaw = Some (Str ''DBIT'') then Some debit
      else None)"

text \<open>
  \<open>ntryCurrency\<close>, with \<open>ccy\<close> the statement currency: that currency, replaced by the
  entry amount's \<open>Ccy\<close> attribute when the statement currency is empty and the amount is an
  object with a truthy \<open>Ccy\<close>.
\<close>

definition ntryCurrencyOf :: "string \<Rightarrow> jsval \<Rightarrow> jsval" where
  "ntryCurrencyOf ccy ntry =
     (if ccy = [] then
        (case get ntry [''Amt''] of
           Some (Obj p kvs) \<Rightarrow> (case truthyProp (Obj p kvs) ''Ccy'' of Some c \<Rightarrow> c | None \<Rightarrow> Str ccy)
         | Some (Arr xs) \<Rightarrow> Str ccy
         | Some (Str s) \<Rightarrow> Str ccy
         | None \<Rightarrow> Str ccy)
      else Str ccy)"

text \<open>
  The transaction-detail blocks of an entry as the flattener sees them: \<open>TxDtls\<close> of a
  truthy \<open>NtryDtls\<close>, as an array; one synthetic \<open>null\<close> detail when there is none.
\<close>

definition txDtlsArrOf :: "jsval \<Rightarrow> jsval option list" where
  "txDtlsArrOf ntry =
     (let txDtlsArr =
            (case get ntry [''NtryDtls''] of
               None \<Rightarrow> []
             | Some ntryDtls \<Rightarrow>
                 if truthy ntryDtls then
                   (case truthyProp ntryDtls ''TxDtls'' of
                      Some t \<Rightarrow> map Some (arrayOf t)
                    | None \<Rightarrow> [])
                 else [])
      in if txDtlsArr = [] then [None] else txDtlsArr)"

text \<open>
  One transaction. The entry's amount, the join of the description parts and the detail's
  amount are the three steps that may throw. The source reads the entry's amount once per
  entry, before it walks the details; as every entry has at least one detail to walk
  (\<open>txDtlsArrOf\<close> is never empty), reading it with each detail throws in the same cases.
\<close>

definition mkTransaction :: "jsval \<Rightarrow> string \<Rightarrow> jsval \<Rightarrow> jsval option \<Rightarrow> error + transaction" where
  "mkTransaction stmt ccy ntry txDtls =
     (let ntryDate = extractDate (get ntry [''BookgDt'']);
          ntryType = ntryTypeOf ntry;
          ntryCurrency = ntryCurrencyOf ccy ntry;
          parts = descriptionParts stmt ntry txDtls;
          currencyVal = getTx txDtls [''Amt'', ''Ccy'']
      in andThen (extractAmount (get ntry [''Amt''])) (\<lambda>ntryAmount.
         andThen (descriptionAdditionalOf parts) (\<lambda>additional.
         andThen (if truthyO txDtls
                  then andThen (extractAmount (getTx txDtls [''Amt''])) (\<lambda>a. Inr (orElse a ntryAmount))
                  else Inr ntryAmount) (\<lambda>amt.
         Inr \<lparr> date = (if truthyO txDtls
                         then orElse (extractDate (getTx txDtls [''BookgDt''])) ntryDate
                         else ntryDate),
                 amount = amt,
                 txCurrency = (case currencyVal of
                                 Some c \<Rightarrow> if truthy c then c else ntryCurrency
                               | None \<Rightarrow> ntryCurrency),
                 txType = ntryType,
                 counterpartyName = counterpartyNameOf ntry ntryType txDtls,
                 counterpartyAccountIBAN = counterpartyAccountOf ntry ntryType txDtls,
                 description = descriptionOf parts,
                 descriptionAdditional = additional,
                 endToEndReference = endToEndReferenceOf ntry txDtls,
                 remittanceReference = remittanceReferenceOf txDtls,
                 purpose = getTx txDtls [''Purp'', ''Cd''] \<rparr>))))"

text \<open>\<open>ntries\<close>: the entries the flattener iterates, \<open>[]\<close> unless \<open>stmt.Ntry\<close> is truthy.\<close>

definition ntriesOf :: "jsval \<Rightarrow> jsval list" where
  "ntriesOf stmt = (case truthyProp stmt ''Ntry'' of Some n \<Rightarrow> arrayOf n | None \<Rightarrow> [])"

definition transactionsOf :: "jsval \<Rightarrow> string \<Rightarrow> error + transaction list" where
  "transactionsOf stmt ccy =
     andThen (mapE (\<lambda>ntry. mapE (mkTransaction stmt ccy ntry) (txDtlsArrOf ntry)) (ntriesOf stmt))
       (\<lambda>perEntry. Inr (concat perEntry))"

section \<open>Statement resolver\<close>

definition accountHolderOf :: "jsval \<Rightarrow> jsval option" where
  "accountHolderOf stmt =
     orElse (get stmt [''Acct'', ''Ownr'', ''Nm''])
            (get stmt [''Acct'', ''Ownr'', ''Id'', ''OrgId'', ''Othr'', ''Id''])"

definition accountIBANOf :: "jsval \<Rightarrow> jsval option" where
  "accountIBANOf stmt =
     orElse (get stmt [''Acct'', ''Id'', ''IBAN'']) (get stmt [''Acct'', ''Id'', ''Othr'', ''Id''])"

definition currencyOf :: "jsval \<Rightarrow> string" where
  "currencyOf stmt =
     (case get stmt [''Acct'', ''Ccy''] of
        Some (Str s) \<Rightarrow> s
      | Some (Obj p kvs) \<Rightarrow> (case getProp (Obj p kvs) ''_'' of Some (Str t) \<Rightarrow> t | _ \<Rightarrow> [])
      | Some (Arr xs) \<Rightarrow> []
      | None \<Rightarrow> [])"

definition sequenceNumberOf :: "jsval \<Rightarrow> error + jsnum option" where
  "sequenceNumberOf stmt =
     (case orElse (get stmt [''LglSeqNb'']) (get stmt [''ElctrncSeqNb'']) of
        None \<Rightarrow> Inr None
      | Some sequenceNumberRaw \<Rightarrow>
          if truthy sequenceNumberRaw
          then andThen (parseIntV sequenceNumberRaw) (\<lambda>n. Inr (Some n))
          else Inr None)"

text \<open>A date string or \<open>null\<close> used as a condition.\<close>

definition truthyDate :: "string option \<Rightarrow> bool" where
  "truthyDate d = (case d of None \<Rightarrow> False | Some s \<Rightarrow> s \<noteq> [])"

text \<open>The fallback on the balances: the last entry of the truthy \<open>Bal/Dt/Dt\<close> dates.\<close>

definition balDate :: "jsval \<Rightarrow> string option" where
  "balDate stmt =
     (case truthyProp stmt ''Bal'' of
        None \<Rightarrow> None
      | Some b \<Rightarrow>
          (let dates = filter truthyDate (map (\<lambda>bal. extractDate (get bal [''Dt'', ''Dt''])) (arrayOf b))
           in if dates \<noteq> [] then last dates else None))"

text \<open>The inner loop over the details of one entry, returning at the first truthy date.\<close>

fun txDtlsLoop :: "jsval \<Rightarrow> jsval list \<Rightarrow> string option" where
  "txDtlsLoop ntry [] = None"
| "txDtlsLoop ntry (txDtls # rest) =
     (let txDate = orElse (extractDate (get txDtls [''BookgDt''])) (extractDate (get ntry [''BookgDt'']))
      in if truthyDate txDate then txDate else txDtlsLoop ntry rest)"

text \<open>The loop over the entries.\<close>

fun ntryLoop :: "jsval list \<Rightarrow> string option" where
  "ntryLoop [] = None"
| "ntryLoop (ntry # rest) =
     (case (case get ntry [''NtryDtls''] of
              None \<Rightarrow> None
            | Some ntryDtls \<Rightarrow>
                if truthy ntryDtls then
                  (case truthyProp ntryDtls ''TxDtls'' of
                     Some t \<Rightarrow> txDtlsLoop ntry (arrayOf t)
                   | None \<Rightarrow> None)
                else None) of
        Some txDate \<Rightarrow> Some txDate
      | None \<Rightarrow>
          (let ntryDate = extractDate (get ntry [''BookgDt''])
           in if truthyDate ntryDate then ntryDate else ntryLoop rest))"

definition ntryDateFallback :: "jsval \<Rightarrow> string option" where
  "ntryDateFallback stmt = (case truthyProp stmt ''Ntry'' of None \<Rightarrow> None | Some n \<Rightarrow> ntryLoop (arrayOf n))"

definition statementDateOf :: "jsval \<Rightarrow> string" where
  "statementDateOf stmt =
     (case orElse (extractDate (get stmt [''FrToDt'', ''ToDtTm'']))
            (orElse (extractDate (get stmt [''FrToDt'', ''ToDt'']))
              (orElse (extractDate (get stmt [''CreDtTm'']))
                (orElse (balDate stmt) (ntryDateFallback stmt)))) of
        Some d \<Rightarrow> d
      | None \<Rightarrow> [])"

text \<open>The loop over the balance blocks, on the pair (openingBalance, closingBalance).\<close>

fun balLoop :: "jsval list \<Rightarrow> jsnum option \<times> jsnum option \<Rightarrow> error + jsnum option \<times> jsnum option" where
  "balLoop [] acc = Inr acc"
| "balLoop (bal # rest) (ob, cb) =
     (let code = get bal [''Tp'', ''CdOrPrtry'', ''Cd''] in
      case (if code = Some (Str ''OPBD'') then extractAmount (getProp bal ''Amt'') else Inr ob) of
        Inl e \<Rightarrow> Inl e
      | Inr ob' \<Rightarrow>
          (case (if code = Some (Str ''CLBD'') then extractAmount (getProp bal ''Amt'') else Inr cb) of
             Inl e \<Rightarrow> Inl e
           | Inr cb' \<Rightarrow> balLoop rest (ob', cb')))"

definition balancesOf :: "jsval \<Rightarrow> error + jsnum option \<times> jsnum option" where
  "balancesOf stmt =
     (case truthyProp stmt ''Bal'' of
        None \<Rightarrow> Inr (None, None)
      | Some b \<Rightarrow> balLoop (arrayOf b) (None, None))"

text \<open>
  The count and the total of one side (\<open>TtlCdtNtries\<close> or \<open>TtlDbtNtries\<close>) of the
  transaction summary.
\<close>

definition summaryOf :: "jsval \<Rightarrow> string \<Rightarrow> error + jsnum option \<times> jsnum option" where
  "summaryOf stmt side =
     (case truthyProp stmt ''TxsSummry'' of
        None \<Rightarrow> Inr (None, None)
      | Some txsSummry \<Rightarrow>
          (case truthyProp txsSummry side of
             None \<Rightarrow> Inr (None, None)
           | Some sub \<Rightarrow>
               andThen (parseIntV (case get stmt [''TxsSummry'', side, ''NbOfNtries''] of
                                     Some n \<Rightarrow> n
                                   | None \<Rightarrow> Str ''0'')) (\<lambda>count.
               andThen (extractAmount (get stmt [''TxsSummry'', side, ''Sum''])) (\<lambda>total.
               Inr (Some count, total)))))"

fun showNat :: "nat \<Rightarrow> string" where
  "showNat n = (if n < 10 then [char_of (48 + n)] else showNat (n div 10) @ [char_of (48 + n mod 10)])"

declare showNat.simps [simp del]

definition mapStatement :: "nat \<Rightarrow> jsval \<Rightarrow> error + statement" where
  "mapStatement idx stmt =
     (let ccy = currencyOf stmt in
      andThen (sequenceNumberOf stmt) (\<lambda>seqNb.
      andThen (balancesOf stmt) (\<lambda>balances.
      andThen (summaryOf stmt ''TtlCdtNtries'') (\<lambda>credits.
      andThen (summaryOf stmt ''TtlDbtNtries'') (\<lambda>debits.
      andThen (transactionsOf stmt ccy) (\<lambda>txs.
      Inr \<lparr> statementTitle = ''Statement '' @ showNat (idx + 1) @ '': '' @ ccy @ '' Account'',
              accountHolder = accountHolderOf stmt,
              accountIBAN = accountIBANOf stmt,
              currency = ccy,
              statementDate = statementDateOf stmt,
              sequenceNumber = seqNb,
              openingBalance = fst balances,
              closingBalance = snd balances,
              numberOfCredits = fst credits,
              totalCredits = snd credits,
              numberOfDebits = fst debits,
              totalDebits = snd debits,
              transactions = txs \<rparr>))))))"

section \<open>Top-level orchestration\<close>

definition NAMESPACE_TO_XSD :: "(string \<times> string) list" where
  "NAMESPACE_TO_XSD =
     [(''urn:iso:std:iso:20022:tech:xsd:camt.053.001.02'', ''camt.053.001.02.xsd''),
      (''urn:iso:std:iso:20022:tech:xsd:camt.053.001.08'', ''camt.053.001.08.xsd''),
      (''urn:iso:std:iso:20022:tech:xsd:camt.053.001.13'', ''camt.053.001.13.xsd'')]"

text \<open>
  \<open>namespace in NAMESPACE_TO_XSD\<close> also holds for the property names the table inherits
  from \<open>Object.prototype\<close>; the value found under such a name is not a string.
\<close>

definition inheritedKeys :: "string list" where
  "inheritedKeys =
     [''constructor'', ''hasOwnProperty'', ''isPrototypeOf'', ''propertyIsEnumerable'',
      ''toLocaleString'', ''toString'', ''valueOf'', ''__proto__'', ''__defineGetter__'',
      ''__defineSetter__'', ''__lookupGetter__'', ''__lookupSetter__'']"

definition inTable :: "string \<Rightarrow> bool" where
  "inTable ns = (ns \<in> set (map fst NAMESPACE_TO_XSD) \<or> ns \<in> set inheritedKeys)"

text \<open>
  \<open>detectNamespace\<close>: the first match of \<open><Document[^>]+xmlns="([^"]+)"\<close>.
  \<open>afterXmlns t\<close> matches \<open>xmlns="([^"]+)"\<close> at the head of \<open>t\<close>; \<open>greedyTag r\<close> is the greedy
  \<open>[^>]+\<close> from \<open>r\<close> on, which prefers the rightmost \<open>xmlns\<close> of the tag.
\<close>

definition afterXmlns :: "string \<Rightarrow> string option" where
  "afterXmlns t =
     (if take 7 t = [CHR ''x'', CHR ''m'', CHR ''l'', CHR ''n'', CHR ''s'', CHR ''='', CHR 0x22]
      then (let r = drop 7 t; run = takeWhile (\<lambda>c. c \<noteq> CHR 0x22) r
            in if run \<noteq> [] \<and> length run < length r then Some run else None)
      else None)"

fun greedyTag :: "string \<Rightarrow> string option" where
  "greedyTag [] = None"
| "greedyTag (c # cs) =
     (if c = CHR ''>'' then None
      else (case greedyTag cs of Some ns \<Rightarrow> Some ns | None \<Rightarrow> afterXmlns cs))"

fun detectNamespace :: "string \<Rightarrow> string option" where
  "detectNamespace [] = None"
| "detectNamespace (c # cs) =
     (if take 9 (c # cs) = ''<Document''
      then (case greedyTag (drop 9 (c # cs)) of
              Some ns \<Rightarrow> Some ns
            | None \<Rightarrow> detectNamespace cs)
      else detectNamespace cs)"

text \<open>
  What \<open>validateXmlWithXsd\<close> meets with the document and the schema of its namespace; the
  file system and the validator (libxmljs2) are outside the repository. The document is
  valid; or the document does not parse, the schema does not parse, or the validation
  reports errors, which the function catches and wraps; or \<open>readFileSync\<close> or \<open>validate\<close>
  throws outside the two \<open>try\<close> blocks (\<open>Uncaught\<close>), which nothing catches.
\<close>

datatype xsd_outcome =
  Valid | InvalidXml string | InvalidXsd string | ValidationErrors "string list" | Uncaught string

text \<open>
  The input of \<open>parseCamt053\<close>: the text, what the schema validation meets for it, and
  what \<open>parseStringPromise\<close> of xml2js does with it: it rejects with an error (\<open>Inl\<close> of
  its message) or resolves to a value (\<open>Inr\<close>).
\<close>

record document =
  xml :: string
  validation :: xsd_outcome
  xmlObj :: "string + jsval"

text \<open>\<open>stmts.map((stmt, idx) => ...)\<close>\<close>

definition mapStatements :: "jsval list \<Rightarrow> error + statement list" where
  "mapStatements stmts = mapE (\<lambda>(idx, stmt). mapStatement idx stmt) (enumerate 0 stmts)"

text \<open>\<open>docRoot.BkToCstmrStmt || docRoot.BankToCustomerStatementV13\<close>, kept when truthy.\<close>

definition stmtContainerOf :: "jsval \<Rightarrow> jsval option" where
  "stmtContainerOf docRoot =
     (case truthyProp docRoot ''BkToCstmrStmt'' of
        Some c \<Rightarrow> Some c
      | None \<Rightarrow> truthyProp docRoot ''BankToCustomerStatementV13'')"

definition findStmts :: "jsval \<Rightarrow> error + jsval list" where
  "findStmts obj =
     (case truthyProp obj ''Document'' of
        None \<Rightarrow> Inl (Camt053ParserError ''Missing <Document> root'')
      | Some docRoot \<Rightarrow>
          (case stmtContainerOf docRoot of
             None \<Rightarrow> Inl (Camt053ParserError ''Missing statement container'')
           | Some stmtContainer \<Rightarrow>
               (case getProp stmtContainer ''Stmt'' of
                  Some (Arr xs) \<Rightarrow> Inr xs
                | Some (Str s) \<Rightarrow> if s \<noteq> [] then Inr [Str s] else Inl (Camt053ParserError ''No <Stmt> found'')
                | Some (Obj p kvs) \<Rightarrow> Inr [Obj p kvs]
                | None \<Rightarrow> Inl (Camt053ParserError ''No <Stmt> found''))))"

definition validateXmlWithXsd :: "xsd_outcome \<Rightarrow> error option" where
  "validateXmlWithXsd outcome =
     (case outcome of
        Valid \<Rightarrow> None
      | InvalidXml m \<Rightarrow> Some (Camt053ParserError (''Invalid XML: '' @ m))
      | InvalidXsd m \<Rightarrow> Some (Camt053ParserError (''Invalid XSD: '' @ m))
      | ValidationErrors errs \<Rightarrow> Some (Camt053ParserError (''XSD validation failed: '' @ join ''; '' errs))
      | Uncaught m \<Rightarrow> Some (OtherError m))"

definition parseCamt053 :: "document \<Rightarrow> error + statement list" where
  "parseCamt053 d =
     (case detectNamespace (xml d) of
        None \<Rightarrow> Inl (Camt053ParserError ''Unsupported or missing CAMT.053 namespace'')
      | Some ns \<Rightarrow>
          if ns = [] then Inl (Camt053ParserError ''Unsupported or missing CAMT.053 namespace'')
          else if \<not> inTable ns
          then Inl (Camt053ParserError ''Unsupported or missing CAMT.053 namespace'')
          else
            (case map_of NAMESPACE_TO_XSD ns of
               None \<Rightarrow> Inl TypeError
             | Some xsdFile \<Rightarrow>
                 (case validateXmlWithXsd (validation d) of
                    Some e \<Rightarrow> Inl e
                  | None \<Rightarrow>
                      (case xmlObj d of
                         Inl m \<Rightarrow> Inl (OtherError m)
                       | Inr obj \<Rightarrow>
                           (case findStmts obj of
                              Inl e \<Rightarrow> Inl e
                            | Inr stmts \<Rightarrow> mapStatements stmts)))))"

section \<open>The vocabulary of the claims\<close>

text \<open>
  The claims speak of candidates, blocks, dates and preconditions. This section defines
  them on the tree as the specification words them, as plain lists and predicates and not
  as the loops, pushes and early returns of the parser; the theorems below relate the
  parser to them.
\<close>

text \<open>The type code and the amount of a balance block.\<close>

definition balCode :: "jsval \<Rightarrow> jsval option" where
  "balCode bal = get bal [''Tp'', ''CdOrPrtry'', ''Cd'']"

definition balAmount :: "jsval \<Rightarrow> error + jsnum option" where
  "balAmount bal = extractAmount (getProp bal ''Amt'')"

text \<open>Last match wins: the last block of the sequence that carries a code.\<close>

definition lastWith :: "string \<Rightarrow> jsval list \<Rightarrow> jsval option" where
  "lastWith code bals =
     (let matches = filter (\<lambda>b. balCode b = Some (Str code)) bals
      in if matches = [] then None else Some (last matches))"

text \<open>No two blocks share the opening code, and no two the closing code.\<close>

definition bookedCodesUnique :: "jsval list \<Rightarrow> bool" where
  "bookedCodesUnique bals =
     (length (filter (\<lambda>b. balCode b = Some (Str ''OPBD'')) bals) \<le> 1 \<and>
      length (filter (\<lambda>b. balCode b = Some (Str ''CLBD'')) bals) \<le> 1)"

text \<open>The balance blocks of a statement and their \<open>Dt/Dt\<close> dates, in document order.\<close>

definition balanceBlocks :: "jsval \<Rightarrow> jsval list" where
  "balanceBlocks stmt = (case truthyProp stmt ''Bal'' of Some b \<Rightarrow> arrayOf b | None \<Rightarrow> [])"

definition balDates :: "jsval \<Rightarrow> string list" where
  "balDates stmt = List.map_filter (\<lambda>bal. extractDate (get bal [''Dt'', ''Dt''])) (balanceBlocks stmt)"

text \<open>The transaction-detail blocks the parser finds under an entry: \<open>NtryDtls/TxDtls\<close>.\<close>

definition detailBlocks :: "jsval \<Rightarrow> jsval list" where
  "detailBlocks ntry =
     (case get ntry [''NtryDtls''] of
        None \<Rightarrow> []
      | Some ntryDtls \<Rightarrow>
          if truthy ntryDtls
          then (case truthyProp ntryDtls ''TxDtls'' of Some t \<Rightarrow> arrayOf t | None \<Rightarrow> [])
          else [])"

text \<open>
  The booking dates an entry offers, in order: for each detail its own booking date or
  else the entry's, then the entry's own booking date.
\<close>

definition entryDates :: "jsval \<Rightarrow> string list" where
  "entryDates ntry =
     List.map_filter (\<lambda>x. x)
       (map (\<lambda>txDtls. orElse (extractDate (get txDtls [''BookgDt''])) (extractDate (get ntry [''BookgDt''])))
            (detailBlocks ntry)
        @ [extractDate (get ntry [''BookgDt''])])"

definition bookingDates :: "jsval \<Rightarrow> string list" where
  "bookingDates stmt = concat (map entryDates (ntriesOf stmt))"

text \<open>Calendar order of ISO dates: the digits read as one number.\<close>

definition dateOrd :: "string \<Rightarrow> nat" where
  "dateOrd d = decVal (filter isDigit d)"

text \<open>
  The child elements of a node with a given name, and the transaction-detail blocks of an
  entry: every \<open>TxDtls\<close> under every \<open>NtryDtls\<close> of the entry.
\<close>

definition children :: "jsval \<Rightarrow> string \<Rightarrow> jsval list" where
  "children v k = (case getProp v k of None \<Rightarrow> [] | Some c \<Rightarrow> arrayOf c)"

definition txDetailBlocks :: "jsval \<Rightarrow> jsval list" where
  "txDetailBlocks ntry = concat (map (\<lambda>ntryDtls. children ntryDtls ''TxDtls'') (children ntry ''NtryDtls''))"

text \<open>
  The elements reached from a list of nodes by one more child name, and the description
  candidates of a transaction as the specification lists them: every unstructured
  remittance text of the detail, every additional-information text of its structured
  remittance blocks, the entry's additional information and the detail's additional
  information, keeping the non-empty ones. A detail is \<open>Some\<close> block or the synthetic
  \<open>None\<close>, which has no texts.
\<close>

definition descend :: "jsval list \<Rightarrow> string \<Rightarrow> jsval list" where
  "descend vs k = concat (map (\<lambda>v. children v k) vs)"

definition candidateTexts :: "jsval \<Rightarrow> jsval option \<Rightarrow> jsval list" where
  "candidateTexts ntry txDtls =
     (let detail = (case txDtls of None \<Rightarrow> [] | Some t \<Rightarrow> [t]);
          rmtInf = descend detail ''RmtInf''
      in filter truthy
           (descend rmtInf ''Ustrd''
            @ descend (descend rmtInf ''Strd'') ''AddtlRmtInf''
            @ children ntry ''AddtlNtryInf''
            @ descend detail ''AddtlTxInf''))"

text \<open>
  An element that does not repeat: the value found is not a list. No source of a
  description candidate repeats: not the remittance information of the detail, its
  unstructured text, its structured block or that block's additional information, nor the
  additional information of the entry or of the detail.
\<close>

definition single :: "jsval option \<Rightarrow> bool" where
  "single x = (case x of Some (Arr xs) \<Rightarrow> False | _ \<Rightarrow> True)"

definition singleTexts :: "jsval \<Rightarrow> jsval option \<Rightarrow> bool" where
  "singleTexts ntry txDtls =
     (single (getTx txDtls [''RmtInf'']) \<and>
      single (getTx txDtls [''RmtInf'', ''Ustrd'']) \<and>
      single (getTx txDtls [''RmtInf'', ''Strd'']) \<and>
      single (getTx txDtls [''RmtInf'', ''Strd'', ''AddtlRmtInf'']) \<and>
      single (get ntry [''AddtlNtryInf'']) \<and>
      single (getTx txDtls [''AddtlTxInf'']))"

text \<open>
  The details of an entry as the parser walks them, its detail blocks or else one
  synthetic detail, and the pairs of an entry and a detail of a statement in document
  order: one pair for each transaction the parser emits.
\<close>

definition detailsOf :: "jsval \<Rightarrow> jsval option list" where
  "detailsOf ntry = (if detailBlocks ntry = [] then [None] else map Some (detailBlocks ntry))"

definition entryDetails :: "jsval \<Rightarrow> (jsval \<times> jsval option) list" where
  "entryDetails stmt = concat (map (\<lambda>ntry. map (Pair ntry) (detailsOf ntry)) (ntriesOf stmt))"

text \<open>The sum, over the entries, of the number of transaction-detail blocks, or 1 if none.\<close>

definition expectedTransactions :: "jsval \<Rightarrow> nat" where
  "expectedTransactions stmt =
     sum_list (map (\<lambda>ntry. max 1 (length (txDetailBlocks ntry))) (children stmt ''Ntry''))"

text \<open>The entry has at most one \<open>NtryDtls\<close> block.\<close>

definition singleNtryDtls :: "jsval \<Rightarrow> bool" where
  "singleNtryDtls ntry = (case getProp ntry ''NtryDtls'' of Some (Arr ds) \<Rightarrow> False | _ \<Rightarrow> True)"




text \<open>
  The document declares a namespace of the table; it declares a name that the table only
  inherits from \<open>Object.prototype\<close>.
\<close>

definition supportedNamespace :: "document \<Rightarrow> bool" where
  "supportedNamespace d =
     (case detectNamespace (xml d) of None \<Rightarrow> False | Some ns \<Rightarrow> ns \<in> set (map fst NAMESPACE_TO_XSD))"

definition inheritedNamespace :: "document \<Rightarrow> bool" where
  "inheritedNamespace d =
     (case detectNamespace (xml d) of None \<Rightarrow> False | Some ns \<Rightarrow> ns \<in> set inheritedKeys)"

text \<open>
  A tree of plain objects, none of which has a child named \<open>toString\<close>: every value in it
  converts to a string.
\<close>

fun plain :: "jsval \<Rightarrow> bool" where
  "plain (Str s) = True"
| "plain (Arr xs) = list_all plain xs"
| "plain (Obj p kvs) =
     (p = ObjectPrototype \<and> map_of kvs ''toString'' = None \<and> list_all plain (map snd kvs))"

text \<open>A detail that is a plain tree, or the synthetic one.\<close>

definition plainO :: "jsval option \<Rightarrow> bool" where
  "plainO x = (case x of None \<Rightarrow> True | Some v \<Rightarrow> plain v)"

section \<open>What the parser pushes and converts\<close>

text \<open>
  Notions of the proofs, read off the parser: the description parts it pushes and the
  values it converts to a string.
\<close>

text \<open>The truthy values of a list of lookups, in order.\<close>

definition nonEmpty :: "jsval option list \<Rightarrow> jsval list" where
  "nonEmpty xs = concat (map (\<lambda>x. case x of None \<Rightarrow> [] | Some v \<Rightarrow> if truthy v then [v] else []) xs)"

text \<open>
  The values that the parser pushes as description parts, as it looks them up: the value
  under \<open>RmtInf/Ustrd\<close> of the detail, the value under \<open>AddtlRmtInf\<close> of the detail's
  \<open>RmtInf/Strd\<close>, the entry's \<open>AddtlNtryInf\<close> and the detail's \<open>AddtlTxInf\<close>, each
  when truthy.
\<close>

definition pushedTexts :: "jsval \<Rightarrow> jsval option \<Rightarrow> jsval list" where
  "pushedTexts ntry txDtls =
     nonEmpty [getTx txDtls [''RmtInf'', ''Ustrd''],
               (case strdOf txDtls of Some strd \<Rightarrow> getProp strd ''AddtlRmtInf'' | None \<Rightarrow> None),
               get ntry [''AddtlNtryInf''],
               getTx txDtls [''AddtlTxInf'']]"

text \<open>
  The fallback it pushes when it pushed none of these: the first present (by \<open>??\<close>) of the
  entry's \<open>AcctSvcrRef\<close>, the detail's \<open>Refs/InstrId\<close> and the statement's \<open>Id\<close>, when
  truthy.
\<close>

definition pushedFallback :: "jsval \<Rightarrow> jsval \<Rightarrow> jsval option \<Rightarrow> jsval list" where
  "pushedFallback stmt ntry txDtls =
     nonEmpty [orElse (get ntry [''AcctSvcrRef''])
                 (orElse (getTx txDtls [''Refs'', ''InstrId'']) (get stmt [''Id'']))]"

text \<open>
  The values that the parser converts to a string while it maps a statement, and what it
  takes for none of these conversions to throw. \<open>extractAmount\<close> converts the truthy text
  under \<open>_\<close> of a value that is not itself a string. A transaction converts the text of
  the entry's amount, the text of the detail's amount, and every description part after
  the first (the fallback list has no second part). A statement converts its truthy raw
  sequence number, the amount texts of the balance blocks with the opening or the closing
  code, the count and the amount text of each summary side that is present, and what its
  transactions convert.
\<close>

definition convertible :: "jsval \<Rightarrow> bool" where
  "convertible v = (toStr v \<noteq> None)"

definition amountText :: "jsval option \<Rightarrow> jsval list" where
  "amountText obj =
     (case obj of
        None \<Rightarrow> []
      | Some (Str s) \<Rightarrow> []
      | Some v \<Rightarrow> (case truthyProp v ''_'' of Some t \<Rightarrow> [t] | None \<Rightarrow> []))"

definition convertedOfDetail :: "jsval \<Rightarrow> jsval option \<Rightarrow> jsval list" where
  "convertedOfDetail ntry txDtls =
     amountText (get ntry [''Amt'']) @ amountText (getTx txDtls [''Amt'']) @ tl (pushedTexts ntry txDtls)"

definition convertedOfSummary :: "jsval \<Rightarrow> string \<Rightarrow> jsval list" where
  "convertedOfSummary stmt side =
     (case truthyProp stmt ''TxsSummry'' of
        None \<Rightarrow> []
      | Some ts \<Rightarrow>
          (case truthyProp ts side of
             None \<Rightarrow> []
           | Some sub \<Rightarrow>
               (case getProp sub ''NbOfNtries'' of Some n \<Rightarrow> [n] | None \<Rightarrow> [])
               @ amountText (getProp sub ''Sum'')))"

definition convertedValues :: "jsval \<Rightarrow> jsval list" where
  "convertedValues stmt =
     nonEmpty [orElse (get stmt [''LglSeqNb'']) (get stmt [''ElctrncSeqNb''])]
     @ concat (map (\<lambda>bal. amountText (getProp bal ''Amt''))
         (filter (\<lambda>bal. balCode bal = Some (Str ''OPBD'') \<or> balCode bal = Some (Str ''CLBD''))
            (balanceBlocks stmt)))
     @ convertedOfSummary stmt ''TtlCdtNtries'' @ convertedOfSummary stmt ''TtlDbtNtries''
     @ concat (map (\<lambda>ntry. concat (map (convertedOfDetail ntry) (txDtlsArrOf ntry))) (ntriesOf stmt))"

section \<open>Sample values\<close>

text \<open>
  Statements, entries and details used to run the parser on concrete input. Their objects
  are plain objects.
\<close>

abbreviation node :: "(string \<times> jsval) list \<Rightarrow> jsval" where
  "node \<equiv> Obj ObjectPrototype"

definition acctWith :: "jsval \<Rightarrow> jsval" where
  "acctWith ccy = node [(''Acct'', node [(''Ccy'', ccy)])]"

definition summaryCreditSum :: jsval where
  "summaryCreditSum =
     node [(''TxsSummry'', node [(''TtlCdtNtries'', node [(''Sum'', Str ''7.5'')]),
                              (''TtlDbtNtries'', Str '' '')])]"

definition summaryEmptyCredit :: jsval where
  "summaryEmptyCredit = node [(''TxsSummry'', node [(''TtlCdtNtries'', Str [])])]"


definition ntryPlain :: jsval where
  "ntryPlain = node [(''Amt'', Str ''5''), (''CdtDbtInd'', Str ''DBIT'')]"

definition ntryRefOnly :: jsval where
  "ntryRefOnly = node [(''AcctSvcrRef'', Str ''REF1'')]"

definition detailTexts :: jsval where
  "detailTexts = node [(''RmtInf'', node [(''Ustrd'', Str ''inv 1''),
                                      (''Strd'', node [(''AddtlRmtInf'', Str ''struct'')])]),
                      (''AddtlTxInf'', Str ''more'')]"

definition ntryTexts :: jsval where
  "ntryTexts =
     node [(''AcctSvcrRef'', Str ''REF1''), (''AddtlNtryInf'', Str ''entry info''),
          (''NtryDtls'', node [(''TxDtls'', detailTexts)])]"

definition stmtTexts :: jsval where
  "stmtTexts = node [(''Id'', Str ''S1''), (''Ntry'', Arr [ntryTexts, ntryRefOnly])]"

definition balBlock :: "string \<Rightarrow> string \<Rightarrow> jsval" where
  "balBlock code amt =
     node [(''Tp'', node [(''CdOrPrtry'', node [(''Cd'', Str code)])]),
          (''Amt'', node [(''_'', Str amt), (''Ccy'', Str ''EUR'')])]"

definition balStmt :: "jsval list \<Rightarrow> jsval" where
  "balStmt bals = node [(''Bal'', Arr bals)]"

definition balDated :: "string \<Rightarrow> jsval" where
  "balDated d = node [(''Dt'', node [(''Dt'', Str d)])]"

definition ntryBooked :: "string \<Rightarrow> jsval" where
  "ntryBooked d = node [(''BookgDt'', node [(''Dt'', Str d)])]"

definition stmtBalDates :: jsval where
  "stmtBalDates = node [(''Bal'', Arr [balDated ''2023-01-31'', balDated ''2023-01-01''])]"

definition stmtTwoEntries :: jsval where
  "stmtTwoEntries = node [(''Ntry'', Arr [ntryBooked ''2023-02-02'', ntryBooked ''2023-01-01''])]"

definition stmtBalChrono :: jsval where
  "stmtBalChrono = node [(''Bal'', Arr [balDated ''2023-01-01'', balDated ''2023-01-31''])]"

definition stmtChronoEntries :: jsval where
  "stmtChronoEntries = node [(''Ntry'', Arr [ntryBooked ''2023-01-01'', ntryBooked ''2023-02-02''])]"

text \<open>The output for a statement that has a date and nothing else.\<close>

definition dated :: "string \<Rightarrow> statement" where
  "dated d =
     \<lparr> statementTitle = ''Statement 1:  Account'', accountHolder = None, accountIBAN = None,
       currency = [], statementDate = d, sequenceNumber = None, openingBalance = None,
       closingBalance = None, numberOfCredits = None, totalCredits = None,
       numberOfDebits = None, totalDebits = None, transactions = [] \<rparr>"

text \<open>The output for a statement that has an account currency and nothing else.\<close>

definition currencyOnly :: "string \<Rightarrow> statement" where
  "currencyOnly c =
     \<lparr> statementTitle = ''Statement 1: '' @ c @ '' Account'', accountHolder = None, accountIBAN = None,
       currency = c, statementDate = [], sequenceNumber = None, openingBalance = None,
       closingBalance = None, numberOfCredits = None, totalCredits = None,
       numberOfDebits = None, totalDebits = None, transactions = [] \<rparr>"

text \<open>The output for a statement that has balances and nothing else.\<close>

definition balanced :: "jsnum option \<Rightarrow> jsnum option \<Rightarrow> statement" where
  "balanced ob cb =
     \<lparr> statementTitle = ''Statement 1:  Account'', accountHolder = None, accountIBAN = None,
       currency = [], statementDate = [], sequenceNumber = None, openingBalance = ob,
       closingBalance = cb, numberOfCredits = None, totalCredits = None,
       numberOfDebits = None, totalDebits = None, transactions = [] \<rparr>"

definition detailAmt :: "string \<Rightarrow> jsval" where
  "detailAmt amt = node [(''Amt'', node [(''_'', Str amt), (''Ccy'', Str ''EUR'')])]"

definition ntryRepeatedDtls :: jsval where
  "ntryRepeatedDtls =
     node [(''Amt'', node [(''_'', Str ''100.00''), (''Ccy'', Str ''EUR'')]),
          (''CdtDbtInd'', Str ''CRDT''),
          (''NtryDtls'', Arr [node [(''TxDtls'', detailAmt ''40.00'')],
                              node [(''TxDtls'', detailAmt ''60.00'')]])]"

definition stmtRepeatedDtls :: jsval where
  "stmtRepeatedDtls = node [(''Ntry'', ntryRepeatedDtls)]"

definition stmtBatch :: jsval where
  "stmtBatch =
     node [(''Ntry'', Arr [node [(''Amt'', node [(''_'', Str ''100.00''), (''Ccy'', Str ''EUR'')]),
                               (''NtryDtls'', node [(''TxDtls'', Arr [detailAmt ''40.00'', detailAmt ''60.00''])])],
                          ntryPlain])]"

text \<open>
  An entry with one detail whose remittance information has two unstructured texts, and
  one whose remittance information has two structured blocks.
\<close>

definition detailTwoUstrd :: jsval where
  "detailTwoUstrd = node [(''RmtInf'', node [(''Ustrd'', Arr [Str ''inv 1'', Str ''inv 2''])])]"

definition ntryTwoUstrd :: jsval where
  "ntryTwoUstrd =
     node [(''Amt'', node [(''_'', Str ''100.00''), (''Ccy'', Str ''EUR'')]),
          (''CdtDbtInd'', Str ''CRDT''),
          (''NtryDtls'', node [(''TxDtls'', detailTwoUstrd)])]"

definition stmtTwoUstrd :: jsval where
  "stmtTwoUstrd = node [(''Ntry'', ntryTwoUstrd)]"

definition detailTwoStrd :: jsval where
  "detailTwoStrd =
     node [(''RmtInf'', node [(''Strd'', Arr [node [(''AddtlRmtInf'', Str ''part 1'')],
                                           node [(''AddtlRmtInf'', Str ''part 2'')]])])]"

definition ntryTwoStrd :: jsval where
  "ntryTwoStrd =
     node [(''Amt'', node [(''_'', Str ''100.00''), (''Ccy'', Str ''EUR'')]),
          (''CdtDbtInd'', Str ''CRDT''),
          (''NtryDtls'', node [(''TxDtls'', detailTwoStrd)])]"

definition stmtTwoStrd :: jsval where
  "stmtTwoStrd = node [(''Ntry'', ntryTwoStrd)]"

definition documentTag :: "string \<Rightarrow> string" where
  "documentTag ns = ''<Document xmlns='' @ [CHR 0x22] @ ns @ [CHR 0x22] @ ''>''"

definition docWith :: "string \<Rightarrow> xsd_outcome \<Rightarrow> jsval \<Rightarrow> document" where
  "docWith ns outcome tree = \<lparr> xml = documentTag ns, validation = outcome, xmlObj = Inr tree \<rparr>"

definition treeWith :: "jsval \<Rightarrow> jsval" where
  "treeWith stmt = node [(''Document'', node [(''BkToCstmrStmt'', node [(''GrpHdr'', node [(''MsgId'', Str ''M1'')]), (''Stmt'', stmt)])])]"




definition docToString :: document where
  "docToString = docWith ''toString'' Valid (treeWith (node [(''Id'', Str ''S1'')]))"





section \<open>Basic facts about the tree accessor\<close>

lemma foldl_get_None:
  "foldl (\<lambda>acc key. case acc of None \<Rightarrow> None | Some a \<Rightarrow> if truthy a then getProp a key else None) None path = None"
  by (induction path) simp_all

lemma get_Nil: "get v [] = Some v"
  by (simp add: get_def)

lemma get_Cons:
  "get v (k # ks) = (case (if truthy v then getProp v k else None) of None \<Rightarrow> None | Some w \<Rightarrow> get w ks)"
  by (simp add: get_def foldl_get_None split: option.splits)

lemma get_single: "get v [k] = (if truthy v then getProp v k else None)"
  by (simp add: get_Cons get_Nil split: option.splits)

lemma truthyProp_Some: "truthyProp v k = Some d \<Longrightarrow> truthy v \<and> getProp v k = Some d \<and> truthy d"
  by (cases v) (auto simp: truthyProp_def split: option.splits if_splits)

lemma getTx_falsy: "\<not> truthyO txDtls \<Longrightarrow> getTx txDtls path = None"
  by (auto simp: getTx_def truthyO_def split: option.splits)

lemma extractDate_None: "extractDate None = None"
  by (simp add: extractDate_def)

lemma extractAmount_None: "extractAmount None = Inr None"
  by (simp add: extractAmount_def)

lemma andThen_Inr: "andThen (Inr x) f = f x"
  by (simp add: andThen_def)

lemma andThen_Inl: "andThen (Inl e) f = Inl e"
  by (simp add: andThen_def)

lemma andThen_Inr_iff: "andThen r f = Inr y \<longleftrightarrow> (\<exists>x. r = Inr x \<and> f x = Inr y)"
  by (cases r) (simp_all add: andThen_def)


lemma mapE_Inr_nth:
  "mapE f xs = Inr ys \<Longrightarrow> length ys = length xs \<and> (\<forall>i < length xs. f (xs ! i) = Inr (ys ! i))"
proof (induction xs arbitrary: ys)
  case Nil
  then show ?case by simp
next
  case (Cons x xs)
  from Cons.prems obtain z zs where z: "f x = Inr z" "mapE f xs = Inr zs" "ys = z # zs"
    by (auto split: sum.splits)
  from Cons.IH [OF z(2)] z(1,3) show ?case
    by (auto simp: nth_Cons split: nat.splits)
qed


lemma mapE_total: "(\<And>x. x \<in> set xs \<Longrightarrow> \<exists>y. f x = Inr y) \<Longrightarrow> \<exists>ys. mapE f xs = Inr ys"
proof (induction xs)
  case Nil
  then show ?case by simp
next
  case (Cons x xs)
  from Cons.prems [of x] obtain y where "f x = Inr y" by auto
  moreover from Cons.IH Cons.prems obtain ys where "mapE f xs = Inr ys" by auto
  ultimately show ?case by simp
qed

lemma mapE_pure: "mapE (\<lambda>x. Inr (g x)) xs = Inr (map g xs)"
  by (induction xs) simp_all

text \<open>The equations that evaluate the extractors on a concrete value.\<close>

lemmas eval_defs =
  get_Cons get_Nil getTx_def truthyO_def truthyProp_def orElse_def andThen_def
  extractDate_def extractAmount_def parseFloatV_def parseIntV_def
  isDateAt_def isDigit_def isSpace_def
  parseFloat_def parseInt_def decVal_def scale10_def signed_def

lemma parseFloat_abc: "parseFloat ''abc'' = NaN"
  by (simp add: parseFloat_def isSpace_def isDigit_def)

lemma parseFloat_12_50: "parseFloat ''12.50'' = Num (25 / 2)"
  by (simp add: eval_defs)

lemma parseFloat_7_5: "parseFloat ''7.5'' = Num (15 / 2)"
  by (simp add: eval_defs)

lemma parseInt_zero: "parseInt ''0'' = Num 0"
  by (simp add: eval_defs)

section \<open>Facts about the parser\<close>

subsection \<open>The statement date as a first-of list\<close>

lemma matchDate_nonempty: "matchDate s = Some d \<Longrightarrow> d \<noteq> []"
  by (induction s) (auto simp: isDateAt_def split: if_splits)

lemma extractDateV_nonempty: "extractDateV v = Some d \<Longrightarrow> d \<noteq> []"
  by (induction v arbitrary: d rule: extractDateV.induct)
     (auto simp: matchDate_nonempty split: option.splits)

lemma extractDate_nonempty: "extractDate x = Some d \<Longrightarrow> d \<noteq> []"
  by (auto simp: extractDate_def extractDateV_nonempty split: option.splits)

lemma truthyDate_extractDate: "truthyDate (extractDate x) \<longleftrightarrow> extractDate x \<noteq> None"
  by (auto simp: truthyDate_def extractDate_nonempty split: option.splits)

lemma filter_truthyDate_map:
  "filter truthyDate (map (\<lambda>b. extractDate (f b)) xs) = map Some (List.map_filter (\<lambda>b. extractDate (f b)) xs)"
  by (induction xs) (auto simp: List.map_filter_simps truthyDate_extractDate split: option.splits)

lemma balDate_last:
  "balDate stmt = (if balDates stmt = [] then None else Some (last (balDates stmt)))"
  by (cases "truthyProp stmt ''Bal''")
     (simp_all add: balDate_def balDates_def balanceBlocks_def Let_def filter_truthyDate_map
        List.map_filter_simps last_map)


lemma truthyDate_orElse:
  "truthyDate (orElse (extractDate x) (extractDate y)) \<longleftrightarrow> orElse (extractDate x) (extractDate y) \<noteq> None"
  by (auto simp: orElse_def truthyDate_def extractDate_nonempty split: option.splits)

lemma txDtlsLoop_first:
  "txDtlsLoop ntry ts =
     (case List.map_filter (\<lambda>x. x)
             (map (\<lambda>txDtls. orElse (extractDate (get txDtls [''BookgDt''])) (extractDate (get ntry [''BookgDt'']))) ts) of
        [] \<Rightarrow> None
      | d # ds \<Rightarrow> Some d)"
proof (induction ts)
  case Nil
  then show ?case by (simp add: List.map_filter_simps)
next
  case (Cons t ts)
  show ?case
  proof (cases "orElse (extractDate (get t [''BookgDt''])) (extractDate (get ntry [''BookgDt'']))")
    case None
    then show ?thesis
      using Cons.IH by (simp add: Let_def List.map_filter_simps truthyDate_def)
  next
    case (Some d)
    then show ?thesis
      using truthyDate_orElse [of "get t [''BookgDt'']" "get ntry [''BookgDt'']"]
      by (simp add: Let_def List.map_filter_simps)
  qed
qed

lemma ntryLoop_detailBlocks:
  "(case get ntry [''NtryDtls''] of
      None \<Rightarrow> None
    | Some ntryDtls \<Rightarrow>
        if truthy ntryDtls then
          (case truthyProp ntryDtls ''TxDtls'' of
             Some t \<Rightarrow> txDtlsLoop ntry (arrayOf t)
           | None \<Rightarrow> None)
        else None) = txDtlsLoop ntry (detailBlocks ntry)"
  by (simp add: detailBlocks_def split: option.splits)

lemma ntryLoop_Cons:
  "ntryLoop (ntry # rest) =
     (case txDtlsLoop ntry (detailBlocks ntry) of
        Some txDate \<Rightarrow> Some txDate
      | None \<Rightarrow> (case extractDate (get ntry [''BookgDt'']) of
                   Some d \<Rightarrow> Some d
                 | None \<Rightarrow> ntryLoop rest))"
  unfolding ntryLoop.simps ntryLoop_detailBlocks
  using truthyDate_extractDate [of "get ntry [''BookgDt'']"]
  by (simp add: Let_def split: option.splits)

lemma entryDates_append:
  "entryDates ntry =
      List.map_filter (\<lambda>x. x)
        (map (\<lambda>txDtls. orElse (extractDate (get txDtls [''BookgDt''])) (extractDate (get ntry [''BookgDt''])))
             (detailBlocks ntry))
      @ (case extractDate (get ntry [''BookgDt'']) of None \<Rightarrow> [] | Some d \<Rightarrow> [d])"
  by (simp add: entryDates_def List.map_filter_def split: option.splits)

lemma ntryLoop_first:
  "ntryLoop ns = (case concat (map entryDates ns) of [] \<Rightarrow> None | d # ds \<Rightarrow> Some d)"
proof (induction ns)
  case Nil
  then show ?case by simp
next
  case (Cons n ns)
  show ?case
  proof (cases "List.map_filter (\<lambda>x. x)
        (map (\<lambda>txDtls. orElse (extractDate (get txDtls [''BookgDt''])) (extractDate (get n [''BookgDt''])))
             (detailBlocks n))")
    case Nil
    then show ?thesis
      using Cons.IH
      by (simp add: ntryLoop_Cons txDtlsLoop_first entryDates_append [of n] del: ntryLoop.simps
            split: option.splits)
  next
    case (Cons a as)
    then show ?thesis
      by (simp add: ntryLoop_Cons txDtlsLoop_first entryDates_append [of n] del: ntryLoop.simps)
  qed
qed

lemma statementDateOf_tiers:
  "statementDateOf stmt =
     (case extractDate (get stmt [''FrToDt'', ''ToDtTm'']) of
        Some d \<Rightarrow> d
      | None \<Rightarrow>
     (case extractDate (get stmt [''FrToDt'', ''ToDt'']) of
        Some d \<Rightarrow> d
      | None \<Rightarrow>
     (case extractDate (get stmt [''CreDtTm'']) of
        Some d \<Rightarrow> d
      | None \<Rightarrow>
          if balDates stmt \<noteq> [] then last (balDates stmt)
          else if bookingDates stmt \<noteq> [] then hd (bookingDates stmt)
          else [])))"
proof -
  have n: "ntryDateFallback stmt = (case bookingDates stmt of [] \<Rightarrow> None | d # ds \<Rightarrow> Some d)"
    by (simp add: ntryDateFallback_def bookingDates_def ntriesOf_def ntryLoop_first split: option.splits)
  show ?thesis
    by (simp add: statementDateOf_def orElse_def balDate_last n split: option.splits list.splits)
qed

text \<open>In a list in calendar order the last date is the latest and the first the earliest.\<close>

lemma sorted_last_max:
  fixes f :: "'a \<Rightarrow> nat"
  shows "sorted (map f xs) \<Longrightarrow> d \<in> set xs \<Longrightarrow> f d \<le> f (last xs)"
  by (induction xs) auto

lemma sorted_hd_min:
  fixes f :: "'a \<Rightarrow> nat"
  shows "sorted (map f xs) \<Longrightarrow> d \<in> set xs \<Longrightarrow> f (hd xs) \<le> f d"
  by (cases xs) auto

subsection \<open>The transactions of a statement\<close>

lemma txDtlsArrOf_detailBlocks:
  "txDtlsArrOf ntry = (if detailBlocks ntry = [] then [None] else map Some (detailBlocks ntry))"
  by (simp add: txDtlsArrOf_def detailBlocks_def Let_def split: option.splits)

lemma length_txDtlsArrOf: "length (txDtlsArrOf ntry) = max 1 (length (detailBlocks ntry))"
  by (cases "detailBlocks ntry") (simp_all add: txDtlsArrOf_detailBlocks)

lemma length_transactionsOf:
  assumes "transactionsOf stmt ccy = Inr txs"
  shows "length txs = sum_list (map (\<lambda>ntry. max 1 (length (detailBlocks ntry))) (ntriesOf stmt))"
proof -
  from assms obtain perEntry
    where m: "mapE (\<lambda>ntry. mapE (mkTransaction stmt ccy ntry) (txDtlsArrOf ntry)) (ntriesOf stmt) = Inr perEntry"
      and t: "txs = concat perEntry"
    by (auto simp: transactionsOf_def andThen_Inr_iff)
  from mapE_Inr_nth [OF m]
  have l: "length perEntry = length (ntriesOf stmt)"
   and e: "\<forall>i < length (ntriesOf stmt).
             mapE (mkTransaction stmt ccy (ntriesOf stmt ! i)) (txDtlsArrOf (ntriesOf stmt ! i)) = Inr (perEntry ! i)"
    by simp_all
  have "map length perEntry = map (\<lambda>ntry. max 1 (length (detailBlocks ntry))) (ntriesOf stmt)"
  proof (rule nth_equalityI)
    show "length (map length perEntry) = length (map (\<lambda>ntry. max 1 (length (detailBlocks ntry))) (ntriesOf stmt))"
      using l by simp
  next
    fix i assume "i < length (map length perEntry)"
    then have i: "i < length (ntriesOf stmt)" using l by simp
    with e have "mapE (mkTransaction stmt ccy (ntriesOf stmt ! i)) (txDtlsArrOf (ntriesOf stmt ! i)) = Inr (perEntry ! i)"
      by simp
    from mapE_Inr_nth [OF this] have "length (perEntry ! i) = length (txDtlsArrOf (ntriesOf stmt ! i))"
      by simp
    then show "map length perEntry ! i = map (\<lambda>ntry. max 1 (length (detailBlocks ntry))) (ntriesOf stmt) ! i"
      using i l by (simp add: length_txDtlsArrOf)
  qed
  then show ?thesis
    by (simp add: t length_concat)
qed

lemma max1_blocks:
  assumes "singleNtryDtls ntry"
  shows "max 1 (length (txDetailBlocks ntry)) = max 1 (length (detailBlocks ntry))"
proof (cases "getProp ntry ''NtryDtls''")
  case None
  then show ?thesis
    by (simp add: txDetailBlocks_def children_def detailBlocks_def get_single)
next
  case (Some d)
  with assms have nd: "arrayOf d = [d]"
    by (cases d) (simp_all add: singleNtryDtls_def)
  have tr: "truthy ntry" using Some by (cases ntry) simp_all
  show ?thesis
  proof (cases "getProp d ''TxDtls''")
    case None
    then show ?thesis
      using Some nd tr
      by (simp add: txDetailBlocks_def children_def detailBlocks_def get_single truthyProp_def)
  next
    case (Some t)
    have "truthy d" using Some by (cases d) simp_all
    then show ?thesis
      using Some \<open>getProp ntry ''NtryDtls'' = Some d\<close> nd tr
      by (cases t)
         (simp_all add: txDetailBlocks_def children_def detailBlocks_def get_single truthyProp_def)
  qed
qed

text \<open>The transactions of a statement, one for each pair of an entry and a detail.\<close>

lemma mapE_append:
  "mapE f (xs @ ys) =
     (case mapE f xs of
        Inl e \<Rightarrow> Inl e
      | Inr a \<Rightarrow> (case mapE f ys of Inl e \<Rightarrow> Inl e | Inr b \<Rightarrow> Inr (a @ b)))"
  by (induction xs) (auto split: sum.splits)

lemma mapE_map: "mapE f (map g xs) = mapE (\<lambda>x. f (g x)) xs"
  by (induction xs) (auto split: sum.splits)

lemma mapE_concat:
  "mapE (\<lambda>x. mapE (g x) (h x)) xs = Inr yss \<Longrightarrow>
     mapE (\<lambda>(x, y). g x y) (concat (map (\<lambda>x. map (Pair x) (h x)) xs)) = Inr (concat yss)"
proof (induction xs arbitrary: yss)
  case Nil
  then show ?case by simp
next
  case (Cons x xs)
  from Cons.prems obtain ys rest
    where y: "mapE (g x) (h x) = Inr ys" "mapE (\<lambda>x. mapE (g x) (h x)) xs = Inr rest" "yss = ys # rest"
    by (auto split: sum.splits)
  from Cons.IH [OF y(2)] y(1,3) show ?case
    by (simp add: mapE_append mapE_map)
qed

lemma detailsOf_txDtlsArrOf: "detailsOf ntry = txDtlsArrOf ntry"
  by (simp add: detailsOf_def txDtlsArrOf_detailBlocks)

lemma emitted_transactions:
  assumes "mapStatement idx stmt = Inr st"
  shows "length (transactions st) = length (entryDetails stmt) \<and>
         (\<forall>i < length (entryDetails stmt).
            mkTransaction stmt (currency st) (fst (entryDetails stmt ! i)) (snd (entryDetails stmt ! i))
              = Inr (transactions st ! i))"
proof -
  have c: "currency st = currencyOf stmt"
   and t: "transactionsOf stmt (currencyOf stmt) = Inr (transactions st)"
    using assms by (auto simp: mapStatement_def Let_def andThen_Inr_iff)
  from t obtain perEntry
    where m: "mapE (\<lambda>ntry. mapE (mkTransaction stmt (currencyOf stmt) ntry) (txDtlsArrOf ntry)) (ntriesOf stmt)
                = Inr perEntry"
      and p: "transactions st = concat perEntry"
    by (auto simp: transactionsOf_def andThen_Inr_iff)
  from mapE_concat [OF m]
  have "mapE (\<lambda>(ntry, txDtls). mkTransaction stmt (currencyOf stmt) ntry txDtls) (entryDetails stmt)
          = Inr (transactions st)"
    by (simp add: entryDetails_def detailsOf_txDtlsArrOf p)
  from mapE_Inr_nth [OF this] show ?thesis
    by (simp add: c case_prod_beta)
qed

subsection \<open>The top-level checks\<close>



lemma inherited_not_table:
  "ns \<in> set inheritedKeys \<Longrightarrow> map_of NAMESPACE_TO_XSD ns = None \<and> ns \<noteq> []"
  by (auto simp: NAMESPACE_TO_XSD_def inheritedKeys_def)



lemma parseCamt053_inherited:
  assumes "detectNamespace (xml d) = Some ns" "ns \<in> set inheritedKeys"
  shows "parseCamt053 d = Inl TypeError"
  using assms inherited_not_table [OF assms(2)]
  by (simp add: parseCamt053_def inTable_def)






lemma validate_None: "validateXmlWithXsd v = None \<longleftrightarrow> v = Valid"
  by (cases v) (auto simp: validateXmlWithXsd_def)



subsection \<open>The description parts\<close>

lemma pushIf_nonEmpty: "pushIf parts v = parts @ nonEmpty [v]"
  by (simp add: pushIf_def nonEmpty_def split: option.splits)

lemma nonEmpty_Cons: "nonEmpty (x # xs) = nonEmpty [x] @ nonEmpty xs"
  by (simp add: nonEmpty_def)

lemma filter_truthy_nonEmpty: "filter truthy (nonEmpty xs) = nonEmpty xs"
  by (induction xs) (auto simp: nonEmpty_def split: option.splits)

lemma descriptionParts_texts:
  "descriptionParts stmt ntry txDtls =
     (if pushedTexts ntry txDtls = [] then pushedFallback stmt ntry txDtls
      else pushedTexts ntry txDtls)"
proof (cases "strdOf txDtls")
  case None
  then show ?thesis
    by (simp add: descriptionParts_def Let_def pushIf_nonEmpty pushedTexts_def
          pushedFallback_def nonEmpty_def)
next
  case (Some strd)
  then show ?thesis
    by (simp add: descriptionParts_def Let_def pushIf_nonEmpty pushedTexts_def
          pushedFallback_def nonEmpty_def)
qed

text \<open>
  When no source of a candidate repeats, the parts that the parser pushes are the
  candidates.
\<close>

lemma get_step: "get v (k # ks) = (case getProp v k of None \<Rightarrow> None | Some w \<Rightarrow> get w ks)"
  by (cases v) (simp_all add: get_Cons)

lemma get_one: "get v [k] = getProp v k"
  by (simp add: get_step get_Nil split: option.splits)

lemma get_two: "get v [k1, k2] = (case getProp v k1 of None \<Rightarrow> None | Some c \<Rightarrow> getProp c k2)"
  by (simp add: get_step [of v] get_one split: option.splits)

lemma get_three:
  "get v [k1, k2, k3] =
     (case getProp v k1 of None \<Rightarrow> None
      | Some c \<Rightarrow> (case getProp c k2 of None \<Rightarrow> None | Some e \<Rightarrow> getProp e k3))"
  by (simp add: get_step [of v] get_two split: option.splits)

lemma getTx_Some: "getTx (Some t) (k # ks) = get t (k # ks)"
  by (cases t) (simp_all add: getTx_def get_Cons)

lemma children_single:
  "single (getProp v k) \<Longrightarrow> children v k = (case getProp v k of None \<Rightarrow> [] | Some c \<Rightarrow> [c])"
  by (auto simp: children_def single_def split: option.splits jsval.splits)

lemma descend_one: "descend [v] k = children v k"
  by (simp add: descend_def)

lemma descend_none: "descend [] k = []"
  by (simp add: descend_def)

lemma filter_children:
  "single (getProp v k) \<Longrightarrow> filter truthy (children v k) = nonEmpty [getProp v k]"
  by (cases "getProp v k") (simp_all add: children_single nonEmpty_def)

lemma candidateTexts_pushedTexts:
  assumes "singleTexts ntry txDtls"
  shows "candidateTexts ntry txDtls = pushedTexts ntry txDtls"
proof -
  define detail where "detail = (case txDtls of None \<Rightarrow> [] | Some t \<Rightarrow> [t])"
  have s: "single (getTx txDtls [''RmtInf''])" "single (getTx txDtls [''RmtInf'', ''Ustrd''])"
    "single (getTx txDtls [''RmtInf'', ''Strd''])"
    "single (getTx txDtls [''RmtInf'', ''Strd'', ''AddtlRmtInf''])"
    "single (getProp ntry ''AddtlNtryInf'')" "single (getTx txDtls [''AddtlTxInf''])"
    using assms by (simp_all add: singleTexts_def get_one)
  have e3: "filter truthy (children ntry ''AddtlNtryInf'') = nonEmpty [get ntry [''AddtlNtryInf'']]"
    using s(5) by (simp add: filter_children get_one)
  have e: "filter truthy (descend (descend detail ''RmtInf'') ''Ustrd'') = nonEmpty [getTx txDtls [''RmtInf'', ''Ustrd'']] \<and>
      filter truthy (descend (descend (descend detail ''RmtInf'') ''Strd'') ''AddtlRmtInf'')
        = nonEmpty [case strdOf txDtls of Some strd \<Rightarrow> getProp strd ''AddtlRmtInf'' | None \<Rightarrow> None] \<and>
      filter truthy (descend detail ''AddtlTxInf'') = nonEmpty [getTx txDtls [''AddtlTxInf'']]"
  proof (cases txDtls)
    case None
    then show ?thesis
      by (simp add: detail_def descend_none getTx_def strdOf_def nonEmpty_def)
  next
    case (Some t)
    note g = s(1,2,3,4,6) [unfolded Some getTx_Some get_one get_two get_three]
    have e4: "filter truthy (descend detail ''AddtlTxInf'') = nonEmpty [getTx txDtls [''AddtlTxInf'']]"
      using g(5) by (simp add: detail_def Some descend_one filter_children getTx_Some get_one)
    show ?thesis
    proof (cases "getProp t ''RmtInf''")
      case None
      then show ?thesis
        using e4
        by (simp add: detail_def Some descend_one descend_none children_def getTx_Some get_two strdOf_def nonEmpty_def)
    next
      case rmt: (Some c)
      have r: "descend detail ''RmtInf'' = [c]"
        using g(1) rmt by (simp add: detail_def Some descend_one children_single)
      have e1: "filter truthy (descend (descend detail ''RmtInf'') ''Ustrd'') = nonEmpty [getTx txDtls [''RmtInf'', ''Ustrd'']]"
        using g(2) rmt by (simp add: r descend_one filter_children Some getTx_Some get_two)
      have e2: "filter truthy (descend (descend (descend detail ''RmtInf'') ''Strd'') ''AddtlRmtInf'')
        = nonEmpty [case strdOf txDtls of Some strd \<Rightarrow> getProp strd ''AddtlRmtInf'' | None \<Rightarrow> None]"
      proof (cases "getProp c ''Strd''")
        case None
        then show ?thesis
          using rmt by (simp add: r descend_one descend_none children_def strdOf_def Some getTx_Some get_two nonEmpty_def)
      next
        case strd: (Some sd)
        have "descend [c] ''Strd'' = [sd]"
          using g(3) rmt strd by (simp add: descend_one children_single)
        moreover have "filter truthy (children sd ''AddtlRmtInf'') = nonEmpty [getProp sd ''AddtlRmtInf'']"
          using g(4) rmt strd by (simp add: filter_children)
        moreover have "(case strdOf txDtls of Some strd \<Rightarrow> getProp strd ''AddtlRmtInf'' | None \<Rightarrow> None)
            = getProp sd ''AddtlRmtInf''"
          using rmt strd by (cases sd) (simp_all add: strdOf_def Some getTx_Some get_two)
        ultimately show ?thesis
          by (simp add: r descend_one)
      qed
      show ?thesis
        using e1 e2 e4 by simp
    qed
  qed
  have "candidateTexts ntry txDtls =
      filter truthy (descend (descend detail ''RmtInf'') ''Ustrd'')
      @ filter truthy (descend (descend (descend detail ''RmtInf'') ''Strd'') ''AddtlRmtInf'')
      @ filter truthy (children ntry ''AddtlNtryInf'')
      @ filter truthy (descend detail ''AddtlTxInf'')"
    by (simp add: candidateTexts_def detail_def Let_def)
  also have "\<dots> = pushedTexts ntry txDtls"
    unfolding e3 e [THEN conjunct1] e [THEN conjunct2, THEN conjunct1] e [THEN conjunct2, THEN conjunct2]
    by (simp add: pushedTexts_def nonEmpty_def)
  finally show ?thesis .
qed

subsection \<open>The balance loop\<close>


lemma lastWith_Cons:
  "lastWith code (b # bs) =
     (case lastWith code bs of
        Some x \<Rightarrow> Some x
      | None \<Rightarrow> if balCode b = Some (Str code) then Some b else None)"
  by (simp add: lastWith_def Let_def)

lemma balLoop_last_match:
  "balLoop bs (ob, cb) = Inr r \<Longrightarrow>
     (case lastWith ''OPBD'' bs of None \<Rightarrow> fst r = ob | Some b \<Rightarrow> balAmount b = Inr (fst r)) \<and>
     (case lastWith ''CLBD'' bs of None \<Rightarrow> snd r = cb | Some b \<Rightarrow> balAmount b = Inr (snd r))"
proof (induction bs arbitrary: ob cb)
  case Nil
  then show ?case by (auto simp: lastWith_def)
next
  case (Cons b bs)
  from Cons.prems obtain ob' cb'
    where o: "(if balCode b = Some (Str ''OPBD'') then extractAmount (getProp b ''Amt'') else Inr ob) = Inr ob'"
      and c: "(if balCode b = Some (Str ''CLBD'') then extractAmount (getProp b ''Amt'') else Inr cb) = Inr cb'"
      and r: "balLoop bs (ob', cb') = Inr r"
    by (auto simp: Let_def balCode_def split: sum.splits)
  from Cons.IH [OF r] o c show ?case
    by (auto simp: lastWith_Cons balAmount_def split: option.splits if_splits)
qed


lemma balLoop_total:
  assumes "\<And>b. b \<in> set bs \<Longrightarrow>
             balCode b = Some (Str ''OPBD'') \<or> balCode b = Some (Str ''CLBD'') \<Longrightarrow> \<exists>a. balAmount b = Inr a"
  shows "\<exists>r. balLoop bs acc = Inr r"
  using assms
proof (induction bs arbitrary: acc)
  case Nil
  then show ?case by simp
next
  case (Cons b bs)
  obtain ob cb where acc: "acc = (ob, cb)" by (cases acc)
  have o: "\<exists>ob'. (if balCode b = Some (Str ''OPBD'') then extractAmount (getProp b ''Amt'') else Inr ob) = Inr ob'"
    using Cons.prems(1) [of b] by (auto simp: balAmount_def)
  have c: "\<exists>cb'. (if balCode b = Some (Str ''CLBD'') then extractAmount (getProp b ''Amt'') else Inr cb) = Inr cb'"
    using Cons.prems(1) [of b] by (auto simp: balAmount_def)
  from o c obtain ob' cb'
    where "(if balCode b = Some (Str ''OPBD'') then extractAmount (getProp b ''Amt'') else Inr ob) = Inr ob'"
          "(if balCode b = Some (Str ''CLBD'') then extractAmount (getProp b ''Amt'') else Inr cb) = Inr cb'"
    by blast
  moreover have "\<exists>r. balLoop bs (ob', cb') = Inr r"
    using Cons.prems by (intro Cons.IH) auto
  ultimately show ?case
    by (auto simp: acc Let_def balCode_def)
qed

lemma filter_perm_unique:
  assumes "mset bs' = mset bs" "length (filter P bs) \<le> 1"
  shows "filter P bs' = filter P bs"
proof -
  have m: "mset (filter P bs') = mset (filter P bs)"
    using assms(1) by (metis mset_filter)
  show ?thesis
  proof (cases "filter P bs")
    case Nil
    with m show ?thesis by simp
  next
    case (Cons x xs)
    with assms(2) have "filter P bs = [x]" by simp
    with m have "mset (filter P bs') = {#x#}" by simp
    then have "filter P bs' = [x]" by (cases "filter P bs'") (auto simp del: mset_filter)
    then show ?thesis using \<open>filter P bs = [x]\<close> by simp
  qed
qed

lemma filter_last_position:
  assumes "j < length xs" "P (xs ! j)" "\<forall>k. j < k \<and> k < length xs \<longrightarrow> \<not> P (xs ! k)"
  shows "filter P xs = filter P (take j xs) @ [xs ! j]"
proof -
  have "\<forall>x \<in> set (drop (Suc j) xs). \<not> P x"
  proof
    fix x assume "x \<in> set (drop (Suc j) xs)"
    then obtain n where n: "n < length (drop (Suc j) xs)" "x = drop (Suc j) xs ! n"
      by (auto simp: in_set_conv_nth)
    then have "x = xs ! (Suc j + n)" "Suc j + n < length xs" by auto
    with assms(3) show "\<not> P x" by auto
  qed
  then have d: "filter P (drop (Suc j) xs) = []" by (simp add: filter_empty_conv)
  have "xs = take j xs @ xs ! j # drop (Suc j) xs"
    using assms(1) by (rule id_take_nth_drop)
  then have "filter P xs = filter P (take j xs @ xs ! j # drop (Suc j) xs)" by simp
  with d assms(2) show ?thesis by simp
qed

lemma lastWith_position:
  assumes "j < length bs" "balCode (bs ! j) = Some (Str code)"
          "\<forall>k. j < k \<and> k < length bs \<longrightarrow> balCode (bs ! k) \<noteq> Some (Str code)"
  shows "lastWith code bs = Some (bs ! j)"
  using filter_last_position [of j bs "\<lambda>b. balCode b = Some (Str code)"] assms
  by (simp add: lastWith_def Let_def)

lemma lastWith_perm_unique:
  assumes "mset bs' = mset bs" "length (filter (\<lambda>b. balCode b = Some (Str code)) bs) \<le> 1"
  shows "lastWith code bs' = lastWith code bs"
  using filter_perm_unique [OF assms] by (simp add: lastWith_def Let_def)

lemma lastWith_adjacent:
  assumes "balCode a \<noteq> balCode b"
  shows "lastWith code (xs @ b # a # ys) = lastWith code (xs @ a # b # ys)"
  using assms by (auto simp: lastWith_def Let_def)


lemma swap_adjacent:
  "Suc i < length bs \<Longrightarrow>
     bs[i := bs ! Suc i, Suc i := bs ! i] = take i bs @ bs ! Suc i # bs ! i # drop (Suc (Suc i)) bs"
proof (induction bs arbitrary: i)
  case Nil
  then show ?case by simp
next
  case (Cons b bs)
  show ?case
  proof (cases i)
    case 0
    with Cons.prems show ?thesis by (cases bs) simp_all
  next
    case (Suc n)
    with Cons.prems have "Suc n < length bs" by simp
    from Cons.IH [OF this] Suc show ?thesis by simp
  qed
qed

lemma balancesOf_Arr:
  "getProp stmt ''Bal'' = Some (Arr bs) \<Longrightarrow> balancesOf stmt = Inr r \<Longrightarrow>
     (case lastWith ''OPBD'' bs of None \<Rightarrow> fst r = None | Some b \<Rightarrow> balAmount b = Inr (fst r)) \<and>
     (case lastWith ''CLBD'' bs of None \<Rightarrow> snd r = None | Some b \<Rightarrow> balAmount b = Inr (snd r))"
  using balLoop_last_match [of bs None None r]
  by (simp add: balancesOf_def truthyProp_def)

subsection \<open>The output of a statement and of a transaction\<close>

lemma mapStatement_Inr:
  assumes "mapStatement idx stmt = Inr st"
  shows "statementTitle st = ''Statement '' @ showNat (idx + 1) @ '': '' @ currencyOf stmt @ '' Account''"
    and "accountHolder st = accountHolderOf stmt"
    and "accountIBAN st = accountIBANOf stmt"
    and "currency st = currencyOf stmt"
    and "statementDate st = statementDateOf stmt"
    and "sequenceNumberOf stmt = Inr (sequenceNumber st)"
    and "balancesOf stmt = Inr (openingBalance st, closingBalance st)"
    and "summaryOf stmt ''TtlCdtNtries'' = Inr (numberOfCredits st, totalCredits st)"
    and "summaryOf stmt ''TtlDbtNtries'' = Inr (numberOfDebits st, totalDebits st)"
    and "transactionsOf stmt (currencyOf stmt) = Inr (transactions st)"
  using assms by (auto simp: mapStatement_def Let_def andThen_Inr_iff)

lemma mapStatement_total:
  assumes "sequenceNumberOf stmt = Inr seqNb" "balancesOf stmt = Inr balances"
      and "summaryOf stmt ''TtlCdtNtries'' = Inr credits" "summaryOf stmt ''TtlDbtNtries'' = Inr debits"
      and "transactionsOf stmt (currencyOf stmt) = Inr txs"
  shows "\<exists>st. mapStatement idx stmt = Inr st"
  using assms by (simp add: mapStatement_def Let_def andThen_Inr)

lemma mkTransaction_Inr:
  assumes "mkTransaction stmt ccy ntry txDtls = Inr tx"
  shows "date tx = orElse (extractDate (getTx txDtls [''BookgDt''])) (extractDate (get ntry [''BookgDt'']))"
    and "\<exists>a n. extractAmount (getTx txDtls [''Amt'']) = Inr a \<and> extractAmount (get ntry [''Amt'']) = Inr n \<and>
               amount tx = orElse a n"
    and "txCurrency tx = (case getTx txDtls [''Amt'', ''Ccy''] of
                            Some c \<Rightarrow> if truthy c then c else ntryCurrencyOf ccy ntry
                          | None \<Rightarrow> ntryCurrencyOf ccy ntry)"
    and "txType tx = ntryTypeOf ntry"
    and "counterpartyName tx = counterpartyNameOf ntry (ntryTypeOf ntry) txDtls"
    and "counterpartyAccountIBAN tx = counterpartyAccountOf ntry (ntryTypeOf ntry) txDtls"
    and "description tx = descriptionOf (descriptionParts stmt ntry txDtls)"
    and "descriptionAdditionalOf (descriptionParts stmt ntry txDtls) = Inr (descriptionAdditional tx)"
    and "endToEndReference tx = endToEndReferenceOf ntry txDtls"
    and "remittanceReference tx = remittanceReferenceOf txDtls"
    and "purpose tx = getTx txDtls [''Purp'', ''Cd'']"
proof -
  from assms obtain n additional amt
    where n: "extractAmount (get ntry [''Amt'']) = Inr n"
      and d: "descriptionAdditionalOf (descriptionParts stmt ntry txDtls) = Inr additional"
      and a: "(if truthyO txDtls
               then andThen (extractAmount (getTx txDtls [''Amt''])) (\<lambda>a. Inr (orElse a n))
               else Inr n) = Inr amt"
      and tx: "tx = \<lparr> date = (if truthyO txDtls
                              then orElse (extractDate (getTx txDtls [''BookgDt''])) (extractDate (get ntry [''BookgDt'']))
                              else extractDate (get ntry [''BookgDt''])),
                      amount = amt,
                      txCurrency = (case getTx txDtls [''Amt'', ''Ccy''] of
                                      Some c \<Rightarrow> if truthy c then c else ntryCurrencyOf ccy ntry
                                    | None \<Rightarrow> ntryCurrencyOf ccy ntry),
                      txType = ntryTypeOf ntry,
                      counterpartyName = counterpartyNameOf ntry (ntryTypeOf ntry) txDtls,
                      counterpartyAccountIBAN = counterpartyAccountOf ntry (ntryTypeOf ntry) txDtls,
                      description = descriptionOf (descriptionParts stmt ntry txDtls),
                      descriptionAdditional = additional,
                      endToEndReference = endToEndReferenceOf ntry txDtls,
                      remittanceReference = remittanceReferenceOf txDtls,
                      purpose = getTx txDtls [''Purp'', ''Cd''] \<rparr>"
    unfolding mkTransaction_def Let_def andThen_Inr_iff by auto
  show "date tx = orElse (extractDate (getTx txDtls [''BookgDt''])) (extractDate (get ntry [''BookgDt'']))"
    by (cases "truthyO txDtls") (simp_all add: tx getTx_falsy extractDate_None orElse_def)
  show "\<exists>a n. extractAmount (getTx txDtls [''Amt'']) = Inr a \<and> extractAmount (get ntry [''Amt'']) = Inr n \<and>
               amount tx = orElse a n"
  proof (cases "truthyO txDtls")
    case True
    with a obtain a' where "extractAmount (getTx txDtls [''Amt'']) = Inr a'" "amt = orElse a' n"
      by (auto simp: andThen_Inr_iff)
    with n show ?thesis by (simp add: tx)
  next
    case False
    with a have "amt = n" by simp
    moreover have "extractAmount (getTx txDtls [''Amt'']) = Inr None"
      using False by (simp add: getTx_falsy extractAmount_None)
    ultimately show ?thesis using n by (simp add: tx orElse_def)
  qed
  show "descriptionAdditionalOf (descriptionParts stmt ntry txDtls) = Inr (descriptionAdditional tx)"
    by (simp add: tx d)
  show "txCurrency tx = (case getTx txDtls [''Amt'', ''Ccy''] of
                            Some c \<Rightarrow> if truthy c then c else ntryCurrencyOf ccy ntry
                          | None \<Rightarrow> ntryCurrencyOf ccy ntry)"
    and "txType tx = ntryTypeOf ntry"
    and "counterpartyName tx = counterpartyNameOf ntry (ntryTypeOf ntry) txDtls"
    and "counterpartyAccountIBAN tx = counterpartyAccountOf ntry (ntryTypeOf ntry) txDtls"
    and "description tx = descriptionOf (descriptionParts stmt ntry txDtls)"
    and "endToEndReference tx = endToEndReferenceOf ntry txDtls"
    and "remittanceReference tx = remittanceReferenceOf txDtls"
    and "purpose tx = getTx txDtls [''Purp'', ''Cd'']"
    by (simp_all add: tx)
qed

lemma mkTransaction_total:
  assumes "extractAmount (get ntry [''Amt'']) = Inr n" "extractAmount (getTx txDtls [''Amt'']) = Inr a"
      and "descriptionAdditionalOf (descriptionParts stmt ntry txDtls) = Inr additional"
  shows "\<exists>tx. mkTransaction stmt ccy ntry txDtls = Inr tx"
  using assms by (simp add: mkTransaction_def Let_def andThen_Inr)

subsection \<open>Conversions that do not throw\<close>

lemma toStrs_total: "list_all convertible xs \<Longrightarrow> \<exists>texts. toStrs xs = Some texts"
  by (induction xs) (auto simp: convertible_def)

lemma extractAmount_total: "list_all convertible (amountText x) \<Longrightarrow> \<exists>a. extractAmount x = Inr a"
  by (auto simp: extractAmount_def amountText_def convertible_def parseFloatV_def andThen_def
        split: option.splits jsval.splits)

lemma pushedFallback_short: "tl (pushedFallback stmt ntry txDtls) = []"
  by (simp add: pushedFallback_def nonEmpty_def split: option.splits)

lemma descriptionAdditionalOf_total:
  assumes "list_all convertible (tl (pushedTexts ntry txDtls))"
  shows "\<exists>additional. descriptionAdditionalOf (descriptionParts stmt ntry txDtls) = Inr additional"
proof -
  have f: "filter truthy (descriptionParts stmt ntry txDtls) = descriptionParts stmt ntry txDtls"
    by (simp add: descriptionParts_texts pushedTexts_def pushedFallback_def filter_truthy_nonEmpty)
  have d: "descriptionAdditionalOf (descriptionParts stmt ntry txDtls) =
             (case descriptionParts stmt ntry txDtls of
                [] \<Rightarrow> Inr None
              | x # rest \<Rightarrow>
                  if rest = [] then Inr None
                  else (case toStrs rest of
                          None \<Rightarrow> Inl TypeError
                        | Some texts \<Rightarrow> Inr (Some (join '' | '' texts))))"
    by (simp add: descriptionAdditionalOf_def f)
  have "list_all convertible (tl (descriptionParts stmt ntry txDtls))"
    using assms by (simp add: descriptionParts_texts pushedFallback_short)
  then show ?thesis
    using toStrs_total [of "tl (descriptionParts stmt ntry txDtls)"]
    unfolding d
    by (cases "descriptionParts stmt ntry txDtls") auto
qed

lemma mkTransaction_convertible:
  assumes "list_all convertible (convertedOfDetail ntry txDtls)"
  shows "\<exists>tx. mkTransaction stmt ccy ntry txDtls = Inr tx"
proof -
  from assms have "list_all convertible (amountText (get ntry [''Amt'']))"
      "list_all convertible (amountText (getTx txDtls [''Amt'']))"
      "list_all convertible (tl (pushedTexts ntry txDtls))"
    by (simp_all add: convertedOfDetail_def)
  then show ?thesis
    using extractAmount_total [of "get ntry [''Amt'']"] extractAmount_total [of "getTx txDtls [''Amt'']"]
      descriptionAdditionalOf_total [of ntry txDtls stmt] mkTransaction_total [of ntry _ txDtls _ stmt _ ccy]
    by blast
qed

lemma transactionsOf_convertible:
  assumes "list_all convertible
             (concat (map (\<lambda>ntry. concat (map (convertedOfDetail ntry) (txDtlsArrOf ntry))) (ntriesOf stmt)))"
  shows "\<exists>txs. transactionsOf stmt ccy = Inr txs"
proof -
  have "\<exists>ys. mapE (\<lambda>ntry. mapE (mkTransaction stmt ccy ntry) (txDtlsArrOf ntry)) (ntriesOf stmt) = Inr ys"
  proof (rule mapE_total)
    fix ntry assume n: "ntry \<in> set (ntriesOf stmt)"
    show "\<exists>y. mapE (mkTransaction stmt ccy ntry) (txDtlsArrOf ntry) = Inr y"
    proof (rule mapE_total)
      fix txDtls assume t: "txDtls \<in> set (txDtlsArrOf ntry)"
      have "list_all convertible (convertedOfDetail ntry txDtls)"
        using assms n t by (auto simp: list_all_iff)
      then show "\<exists>tx. mkTransaction stmt ccy ntry txDtls = Inr tx"
        by (rule mkTransaction_convertible)
    qed
  qed
  then show ?thesis
    by (auto simp: transactionsOf_def andThen_Inr)
qed

lemma sequenceNumberOf_convertible:
  assumes "list_all convertible (nonEmpty [orElse (get stmt [''LglSeqNb'']) (get stmt [''ElctrncSeqNb''])])"
  shows "\<exists>n. sequenceNumberOf stmt = Inr n"
  using assms
  by (auto simp: sequenceNumberOf_def nonEmpty_def convertible_def parseIntV_def andThen_def
        split: option.splits)

lemma summaryOf_Some:
  assumes "truthyProp stmt ''TxsSummry'' = Some ts" "truthyProp ts side = Some sub"
  shows "summaryOf stmt side =
           andThen (parseIntV (case getProp sub ''NbOfNtries'' of Some n \<Rightarrow> n | None \<Rightarrow> Str ''0'')) (\<lambda>count.
           andThen (extractAmount (getProp sub ''Sum'')) (\<lambda>total. Inr (Some count, total)))"
proof -
  from assms(1) have a: "truthy stmt" "getProp stmt ''TxsSummry'' = Some ts" "truthy ts"
    by (auto dest: truthyProp_Some)
  from assms(2) have b: "getProp ts side = Some sub" "truthy sub"
    by (auto dest: truthyProp_Some)
  have "get stmt [''TxsSummry'', side, k] = getProp sub k" for k
    using a b by (simp add: get_Cons get_Nil split: option.splits)
  then show ?thesis
    using assms by (simp add: summaryOf_def)
qed

lemma summaryOf_None:
  assumes "summaryOf stmt side = Inr r"
  shows "fst r = None \<longleftrightarrow>
           (truthyProp stmt ''TxsSummry'' = None \<or>
            (\<exists>ts. truthyProp stmt ''TxsSummry'' = Some ts \<and> truthyProp ts side = None))"
  using assms by (auto simp: summaryOf_def andThen_Inr_iff split: option.splits)

lemma summaryOf_convertible:
  assumes "list_all convertible (convertedOfSummary stmt side)"
  shows "\<exists>r. summaryOf stmt side = Inr r"
proof (cases "truthyProp stmt ''TxsSummry''")
  case None
  then show ?thesis by (simp add: summaryOf_def)
next
  case (Some ts)
  show ?thesis
  proof (cases "truthyProp ts side")
    case None
    with Some show ?thesis by (simp add: summaryOf_def)
  next
    case (Some sub)
    with \<open>truthyProp stmt ''TxsSummry'' = Some ts\<close> assms
    have c: "list_all convertible (case getProp sub ''NbOfNtries'' of Some n \<Rightarrow> [n] | None \<Rightarrow> [])"
            "list_all convertible (amountText (getProp sub ''Sum''))"
      by (simp_all add: convertedOfSummary_def)
    from c(1) obtain count
      where "parseIntV (case getProp sub ''NbOfNtries'' of Some n \<Rightarrow> n | None \<Rightarrow> Str ''0'') = Inr count"
      by (auto simp: parseIntV_def convertible_def split: option.splits)
    moreover from extractAmount_total [OF c(2)] obtain total
      where "extractAmount (getProp sub ''Sum'') = Inr total" by blast
    ultimately show ?thesis
      by (simp add: summaryOf_Some [OF \<open>truthyProp stmt ''TxsSummry'' = Some ts\<close> Some] andThen_Inr)
  qed
qed

lemma balancesOf_convertible:
  assumes "list_all convertible
             (concat (map (\<lambda>bal. amountText (getProp bal ''Amt''))
                (filter (\<lambda>bal. balCode bal = Some (Str ''OPBD'') \<or> balCode bal = Some (Str ''CLBD''))
                   (balanceBlocks stmt))))"
  shows "\<exists>r. balancesOf stmt = Inr r"
proof (cases "truthyProp stmt ''Bal''")
  case None
  then show ?thesis by (simp add: balancesOf_def)
next
  case (Some b)
  have "\<exists>r. balLoop (arrayOf b) (None, None) = Inr r"
  proof (rule balLoop_total)
    fix bal assume "bal \<in> set (arrayOf b)"
       and "balCode bal = Some (Str ''OPBD'') \<or> balCode bal = Some (Str ''CLBD'')"
    with assms Some have "list_all convertible (amountText (getProp bal ''Amt''))"
      by (auto simp: balanceBlocks_def list_all_iff)
    then show "\<exists>a. balAmount bal = Inr a"
      unfolding balAmount_def by (rule extractAmount_total)
  qed
  with Some show ?thesis by (simp add: balancesOf_def)
qed

lemma mapStatement_convertible:
  assumes "list_all convertible (convertedValues stmt)"
  shows "\<exists>st. mapStatement idx stmt = Inr st"
proof -
  from assms have
    "list_all convertible (nonEmpty [orElse (get stmt [''LglSeqNb'']) (get stmt [''ElctrncSeqNb''])])"
    "list_all convertible
       (concat (map (\<lambda>bal. amountText (getProp bal ''Amt''))
          (filter (\<lambda>bal. balCode bal = Some (Str ''OPBD'') \<or> balCode bal = Some (Str ''CLBD''))
             (balanceBlocks stmt))))"
    "list_all convertible (convertedOfSummary stmt ''TtlCdtNtries'')"
    "list_all convertible (convertedOfSummary stmt ''TtlDbtNtries'')"
    "list_all convertible
       (concat (map (\<lambda>ntry. concat (map (convertedOfDetail ntry) (txDtlsArrOf ntry))) (ntriesOf stmt)))"
    unfolding convertedValues_def list_all_append by blast+
  then show ?thesis
    using sequenceNumberOf_convertible [of stmt] balancesOf_convertible [of stmt]
      summaryOf_convertible [of stmt "''TtlCdtNtries''"] summaryOf_convertible [of stmt "''TtlDbtNtries''"]
      transactionsOf_convertible [of stmt "currencyOf stmt"] mapStatement_total [of stmt _ _ _ _ _ idx]
    by blast
qed









lemma mapStatements_Inr:
  assumes "mapStatements stmts = Inr sts"
  shows "length sts = length stmts \<and> (\<forall>i < length stmts. mapStatement i (stmts ! i) = Inr (sts ! i))"
  using mapE_Inr_nth [OF assms [unfolded mapStatements_def]]
  by (simp add: nth_enumerate_eq)

lemma mapStatements_convertible:
  assumes "\<And>stmt. stmt \<in> set stmts \<Longrightarrow> list_all convertible (convertedValues stmt)"
  shows "\<exists>sts. mapStatements stmts = Inr sts"
  unfolding mapStatements_def
proof (rule mapE_total)
  fix x assume "x \<in> set (enumerate 0 stmts)"
  then have "snd x \<in> snd ` set (enumerate 0 stmts)"
    by (rule imageI)
  then have "snd x \<in> set stmts"
    unfolding set_map [symmetric] map_snd_enumerate .
  from mapStatement_convertible [OF assms [OF this], of "fst x"]
  show "\<exists>y. (case x of (idx, stmt) \<Rightarrow> mapStatement idx stmt) = Inr y"
    by (simp add: case_prod_beta)
qed

text \<open>Conversely, a conversion that throws ends the mapping.\<close>

lemma toStrs_convertible: "toStrs xs = Some texts \<Longrightarrow> list_all convertible xs"
  by (induction xs arbitrary: texts) (auto simp: convertible_def split: option.splits)

lemma extractAmount_convertible: "extractAmount x = Inr a \<Longrightarrow> list_all convertible (amountText x)"
  by (auto simp: extractAmount_def amountText_def convertible_def parseFloatV_def andThen_def
        split: option.splits jsval.splits)

lemma descriptionAdditionalOf_convertible:
  assumes "descriptionAdditionalOf (descriptionParts stmt ntry txDtls) = Inr additional"
  shows "list_all convertible (tl (pushedTexts ntry txDtls))"
proof -
  have f: "filter truthy (descriptionParts stmt ntry txDtls) = descriptionParts stmt ntry txDtls"
    by (simp add: descriptionParts_texts pushedTexts_def pushedFallback_def filter_truthy_nonEmpty)
  have "(case descriptionParts stmt ntry txDtls of
           [] \<Rightarrow> Inr None
         | x # rest \<Rightarrow>
             if rest = [] then Inr None
             else (case toStrs rest of
                     None \<Rightarrow> Inl TypeError
                   | Some texts \<Rightarrow> Inr (Some (join '' | '' texts)))) = Inr additional"
    using assms by (simp add: descriptionAdditionalOf_def f)
  then have "list_all convertible (tl (descriptionParts stmt ntry txDtls))"
    by (auto split: list.splits if_splits option.splits dest: toStrs_convertible)
  then show ?thesis
    by (cases "pushedTexts ntry txDtls = []") (simp_all add: descriptionParts_texts)
qed

lemma mkTransaction_Inr_convertible:
  assumes "mkTransaction stmt ccy ntry txDtls = Inr tx"
  shows "list_all convertible (convertedOfDetail ntry txDtls)"
  using mkTransaction_Inr(2) [OF assms] descriptionAdditionalOf_convertible [OF mkTransaction_Inr(8) [OF assms]]
  by (auto simp: convertedOfDetail_def dest: extractAmount_convertible)

lemma mapE_Inr_set: "mapE f xs = Inr ys \<Longrightarrow> x \<in> set xs \<Longrightarrow> \<exists>y. f x = Inr y"
  by (induction xs arbitrary: ys) (auto split: sum.splits)

lemma transactionsOf_Inr_convertible:
  assumes "transactionsOf stmt ccy = Inr txs"
  shows "list_all convertible
           (concat (map (\<lambda>ntry. concat (map (convertedOfDetail ntry) (txDtlsArrOf ntry))) (ntriesOf stmt)))"
proof -
  from assms obtain perEntry
    where m: "mapE (\<lambda>ntry. mapE (mkTransaction stmt ccy ntry) (txDtlsArrOf ntry)) (ntriesOf stmt) = Inr perEntry"
    by (auto simp: transactionsOf_def andThen_Inr_iff)
  have "list_all convertible (convertedOfDetail ntry txDtls)"
    if "ntry \<in> set (ntriesOf stmt)" "txDtls \<in> set (txDtlsArrOf ntry)" for ntry txDtls
  proof -
    from mapE_Inr_set [OF m that(1)] obtain ys
      where "mapE (mkTransaction stmt ccy ntry) (txDtlsArrOf ntry) = Inr ys" by blast
    from mapE_Inr_set [OF this that(2)] obtain tx
      where "mkTransaction stmt ccy ntry txDtls = Inr tx" by blast
    then show ?thesis by (rule mkTransaction_Inr_convertible)
  qed
  then show ?thesis
    by (auto simp: list_all_iff)
qed

lemma balLoop_Inr_convertible:
  assumes "balLoop bs acc = Inr r" "b \<in> set bs"
      and "balCode b = Some (Str ''OPBD'') \<or> balCode b = Some (Str ''CLBD'')"
  shows "\<exists>a. balAmount b = Inr a"
  using assms
proof (induction bs arbitrary: acc)
  case Nil
  then show ?case by simp
next
  case (Cons x xs)
  obtain ob cb where acc: "acc = (ob, cb)" by (cases acc)
  from Cons.prems(1) obtain ob' cb'
    where o: "(if balCode x = Some (Str ''OPBD'') then extractAmount (getProp x ''Amt'') else Inr ob) = Inr ob'"
      and c: "(if balCode x = Some (Str ''CLBD'') then extractAmount (getProp x ''Amt'') else Inr cb) = Inr cb'"
      and r: "balLoop xs (ob', cb') = Inr r"
    by (auto simp: acc Let_def balCode_def split: sum.splits)
  show ?case
  proof (cases "b = x")
    case True
    with o c Cons.prems(3) show ?thesis
      by (auto simp: balAmount_def split: if_splits)
  next
    case False
    with Cons.prems(2) have "b \<in> set xs" by simp
    from Cons.IH [OF r this Cons.prems(3)] show ?thesis .
  qed
qed

lemma balancesOf_Inr_convertible:
  assumes "balancesOf stmt = Inr r"
  shows "list_all convertible
           (concat (map (\<lambda>bal. amountText (getProp bal ''Amt''))
              (filter (\<lambda>bal. balCode bal = Some (Str ''OPBD'') \<or> balCode bal = Some (Str ''CLBD''))
                 (balanceBlocks stmt))))"
proof (cases "truthyProp stmt ''Bal''")
  case None
  then show ?thesis by (simp add: balanceBlocks_def)
next
  case (Some b)
  with assms have l: "balLoop (arrayOf b) (None, None) = Inr r"
    by (simp add: balancesOf_def)
  have "list_all convertible (amountText (getProp bal ''Amt''))"
    if "bal \<in> set (arrayOf b)" "balCode bal = Some (Str ''OPBD'') \<or> balCode bal = Some (Str ''CLBD'')" for bal
    using balLoop_Inr_convertible [OF l that] extractAmount_convertible [of "getProp bal ''Amt''"]
    by (auto simp: balAmount_def)
  with Some show ?thesis
    by (auto simp: balanceBlocks_def list_all_iff)
qed

lemma summaryOf_Inr_convertible:
  assumes "summaryOf stmt side = Inr r"
  shows "list_all convertible (convertedOfSummary stmt side)"
proof (cases "truthyProp stmt ''TxsSummry''")
  case None
  then show ?thesis by (simp add: convertedOfSummary_def)
next
  case (Some ts)
  show ?thesis
  proof (cases "truthyProp ts side")
    case None
    with Some show ?thesis by (simp add: convertedOfSummary_def)
  next
    case (Some sub)
    from assms obtain count total
      where c: "parseIntV (case getProp sub ''NbOfNtries'' of Some n \<Rightarrow> n | None \<Rightarrow> Str ''0'') = Inr count"
        and t: "extractAmount (getProp sub ''Sum'') = Inr total"
      by (auto simp: summaryOf_Some [OF \<open>truthyProp stmt ''TxsSummry'' = Some ts\<close> Some] andThen_Inr_iff)
    from c have "list_all convertible (case getProp sub ''NbOfNtries'' of Some n \<Rightarrow> [n] | None \<Rightarrow> [])"
      by (auto simp: parseIntV_def convertible_def split: option.splits)
    with extractAmount_convertible [OF t] \<open>truthyProp stmt ''TxsSummry'' = Some ts\<close> Some
    show ?thesis
      by (simp add: convertedOfSummary_def)
  qed
qed

lemma sequenceNumberOf_Inr_convertible:
  assumes "sequenceNumberOf stmt = Inr n"
  shows "list_all convertible (nonEmpty [orElse (get stmt [''LglSeqNb'']) (get stmt [''ElctrncSeqNb''])])"
  using assms
  by (auto simp: sequenceNumberOf_def nonEmpty_def convertible_def parseIntV_def andThen_def
        split: option.splits if_splits)

lemma mapStatement_Inr_convertible:
  assumes "mapStatement idx stmt = Inr st"
  shows "list_all convertible (convertedValues stmt)"
  using mapStatement_Inr(6-10) [OF assms]
  by (simp add: convertedValues_def sequenceNumberOf_Inr_convertible balancesOf_Inr_convertible
        summaryOf_Inr_convertible transactionsOf_Inr_convertible)

lemma mapStatement_Inr_iff:
  "(\<exists>st. mapStatement idx stmt = Inr st) \<longleftrightarrow> list_all convertible (convertedValues stmt)"
  using mapStatement_convertible mapStatement_Inr_convertible by blast

lemma mapStatements_Inr_iff:
  "(\<exists>sts. mapStatements stmts = Inr sts) \<longleftrightarrow> (\<forall>s \<in> set stmts. list_all convertible (convertedValues s))"
proof
  assume "\<exists>sts. mapStatements stmts = Inr sts"
  then obtain sts where sts: "mapStatements stmts = Inr sts" by blast
  show "\<forall>s \<in> set stmts. list_all convertible (convertedValues s)"
  proof
    fix s assume "s \<in> set stmts"
    then obtain i where i: "i < length stmts" "s = stmts ! i"
      by (auto simp: in_set_conv_nth)
    with mapStatements_Inr [OF sts] have "mapStatement i s = Inr (sts ! i)" by simp
    then show "list_all convertible (convertedValues s)"
      by (rule mapStatement_Inr_convertible)
  qed
next
  assume "\<forall>s \<in> set stmts. list_all convertible (convertedValues s)"
  then show "\<exists>sts. mapStatements stmts = Inr sts"
    using mapStatements_convertible [of stmts] by blast
qed


subsection \<open>Trees of plain objects\<close>

lemma plain_toStr:
  shows "plain v \<Longrightarrow> toStr v \<noteq> None"
    and "list_all plain xs \<Longrightarrow> toStrs xs \<noteq> None"
  by (induction v and xs rule: toStr_toStrs.induct) (auto split: option.splits)

lemma plain_convertible: "plain v \<Longrightarrow> convertible v"
  by (simp add: convertible_def plain_toStr(1))

lemma plain_getProp: "plain v \<Longrightarrow> getProp v k = Some w \<Longrightarrow> plain w"
proof (cases v)
  case (Obj p kvs)
  assume "plain v" "getProp v k = Some w"
  with Obj have "(k, w) \<in> set kvs" "list_all plain (map snd kvs)"
    by (auto dest: map_of_SomeD)
  then show ?thesis by (force simp: list_all_iff)
qed simp_all

lemma plain_truthyProp: "plain v \<Longrightarrow> truthyProp v k = Some w \<Longrightarrow> plain w"
  using plain_getProp [of v k w] by (auto dest: truthyProp_Some)

lemma plain_get: "plain v \<Longrightarrow> get v path = Some w \<Longrightarrow> plain w"
proof (induction path arbitrary: v)
  case Nil
  then show ?case by (simp add: get_Nil)
next
  case (Cons k ks)
  from Cons.prems(2) obtain u where u: "getProp v k = Some u" "get u ks = Some w"
    by (auto simp: get_Cons split: option.splits if_splits)
  from plain_getProp [OF Cons.prems(1) u(1)] have "plain u" .
  from Cons.IH [OF this u(2)] show ?case .
qed

lemma plain_arrayOf: "plain v \<Longrightarrow> x \<in> set (arrayOf v) \<Longrightarrow> plain x"
  by (cases v) (auto simp: list_all_iff)

lemma plain_getTx: "plainO txDtls \<Longrightarrow> getTx txDtls path = Some w \<Longrightarrow> plain w"
  using plain_get by (auto simp: getTx_def plainO_def split: option.splits if_splits)

lemma plain_nonEmpty:
  assumes "v \<in> set (nonEmpty xs)" "\<And>w. Some w \<in> set xs \<Longrightarrow> plain w"
  shows "plain v"
  using assms by (auto simp: nonEmpty_def split: option.splits if_splits)

lemma plain_amountText:
  assumes "v \<in> set (amountText x)" "\<And>w. x = Some w \<Longrightarrow> plain w"
  shows "plain v"
proof (cases x)
  case None
  with assms(1) show ?thesis by (simp add: amountText_def)
next
  case (Some w)
  show ?thesis
  proof (cases "truthyProp w ''_''")
    case None
    with Some assms(1) show ?thesis by (cases w) (simp_all add: amountText_def)
  next
    case t: (Some t)
    with Some assms(1) have "v = t" by (cases w) (simp_all add: amountText_def)
    with plain_truthyProp [OF assms(2) [OF Some] t] show ?thesis by simp
  qed
qed

lemma plain_pushedTexts:
  assumes "plain ntry" "plainO txDtls" "v \<in> set (pushedTexts ntry txDtls)"
  shows "plain v"
proof -
  have s: "plain strd" if "strdOf txDtls = Some strd" for strd
    using that plain_getTx [OF assms(2), of "[''RmtInf'', ''Strd'']" strd]
    by (auto simp: strdOf_def split: option.splits if_splits)
  have "plain w"
    if "Some w \<in> set [getTx txDtls [''RmtInf'', ''Ustrd''],
               (case strdOf txDtls of Some strd \<Rightarrow> getProp strd ''AddtlRmtInf'' | None \<Rightarrow> None),
               get ntry [''AddtlNtryInf''],
               getTx txDtls [''AddtlTxInf'']]" for w
    using that plain_getTx [OF assms(2)] plain_get [OF assms(1)] s plain_getProp
    by (auto split: option.splits)
  with assms(3) show ?thesis
    unfolding pushedTexts_def by (rule plain_nonEmpty)
qed

lemma plain_convertedOfDetail:
  assumes "plain ntry" "plainO txDtls" "v \<in> set (convertedOfDetail ntry txDtls)"
  shows "plain v"
proof -
  from assms(3) consider "v \<in> set (amountText (get ntry [''Amt'']))"
    | "v \<in> set (amountText (getTx txDtls [''Amt'']))" | "v \<in> set (tl (pushedTexts ntry txDtls))"
    by (auto simp: convertedOfDetail_def)
  then show ?thesis
  proof cases
    case 1
    then show ?thesis by (rule plain_amountText) (rule plain_get [OF assms(1)])
  next
    case 2
    then show ?thesis by (rule plain_amountText) (rule plain_getTx [OF assms(2)])
  next
    case 3
    then have "v \<in> set (pushedTexts ntry txDtls)"
      by (cases "pushedTexts ntry txDtls") auto
    with assms(1,2) show ?thesis by (rule plain_pushedTexts)
  qed
qed

lemma plain_detailBlocks:
  assumes "plain ntry" "t \<in> set (detailBlocks ntry)"
  shows "plain t"
proof (cases "get ntry [''NtryDtls'']")
  case None
  with assms(2) show ?thesis by (simp add: detailBlocks_def)
next
  case (Some d)
  show ?thesis
  proof (cases "truthyProp d ''TxDtls''")
    case None
    have "detailBlocks ntry = []"
      by (simp add: detailBlocks_def Some None)
    with assms(2) show ?thesis by simp
  next
    case ts: (Some ts)
    have "detailBlocks ntry = (if truthy d then arrayOf ts else [])"
      by (simp add: detailBlocks_def Some ts)
    with assms(2) have "t \<in> set (arrayOf ts)"
      by (simp split: if_splits)
    with plain_truthyProp [OF plain_get [OF assms(1) Some] ts] show ?thesis
      by (rule plain_arrayOf)
  qed
qed

lemma plain_balanceBlocks: "plain stmt \<Longrightarrow> bal \<in> set (balanceBlocks stmt) \<Longrightarrow> plain bal"
  by (cases "truthyProp stmt ''Bal''")
     (auto simp: balanceBlocks_def dest: plain_truthyProp plain_arrayOf)

lemma plain_ntriesOf: "plain stmt \<Longrightarrow> ntry \<in> set (ntriesOf stmt) \<Longrightarrow> plain ntry"
  by (cases "truthyProp stmt ''Ntry''")
     (auto simp: ntriesOf_def dest: plain_truthyProp plain_arrayOf)

lemma plain_txDtlsArrOf: "plain ntry \<Longrightarrow> txDtls \<in> set (txDtlsArrOf ntry) \<Longrightarrow> plainO txDtls"
  using plain_detailBlocks [of ntry]
  by (auto simp: txDtlsArrOf_detailBlocks plainO_def split: if_splits)

lemma plain_convertedOfSummary:
  assumes "plain stmt" "v \<in> set (convertedOfSummary stmt side)"
  shows "plain v"
proof (cases "truthyProp stmt ''TxsSummry''")
  case None
  with assms(2) show ?thesis by (simp add: convertedOfSummary_def)
next
  case ts: (Some ts)
  show ?thesis
  proof (cases "truthyProp ts side")
    case None
    with ts assms(2) show ?thesis by (simp add: convertedOfSummary_def)
  next
    case sub: (Some sub)
    from plain_truthyProp [OF plain_truthyProp [OF assms(1) ts] sub] have p: "plain sub" .
    from assms(2) ts sub
    have "getProp sub ''NbOfNtries'' = Some v \<or> v \<in> set (amountText (getProp sub ''Sum''))"
      by (cases "getProp sub ''NbOfNtries''") (auto simp: convertedOfSummary_def)
    then show ?thesis
    proof
      assume "getProp sub ''NbOfNtries'' = Some v"
      with p show ?thesis by (rule plain_getProp)
    next
      assume "v \<in> set (amountText (getProp sub ''Sum''))"
      then show ?thesis by (rule plain_amountText) (rule plain_getProp [OF p])
    qed
  qed
qed

lemma plain_convertedValues:
  assumes "plain stmt"
  shows "list_all convertible (convertedValues stmt)"
proof -
  have "plain v" if "v \<in> set (convertedValues stmt)" for v
  proof -
    from that consider
      (seq) "v \<in> set (nonEmpty [orElse (get stmt [''LglSeqNb'']) (get stmt [''ElctrncSeqNb''])])"
    | (bal) bal where "bal \<in> set (balanceBlocks stmt)" "v \<in> set (amountText (getProp bal ''Amt''))"
    | (sum) side where "v \<in> set (convertedOfSummary stmt side)"
    | (tx) ntry txDtls where "ntry \<in> set (ntriesOf stmt)" "txDtls \<in> set (txDtlsArrOf ntry)"
        "v \<in> set (convertedOfDetail ntry txDtls)"
      by (auto simp: convertedValues_def)
    then show ?thesis
    proof cases
      case seq
      have "plain w" if "Some w \<in> set [orElse (get stmt [''LglSeqNb'']) (get stmt [''ElctrncSeqNb''])]" for w
        using that plain_get [OF assms]
        by (auto simp: orElse_def split: option.splits)
      with seq show ?thesis by (rule plain_nonEmpty)
    next
      case bal
      from plain_balanceBlocks [OF assms bal(1)] have b: "plain bal" .
      from bal(2) show ?thesis by (rule plain_amountText) (rule plain_getProp [OF b])
    next
      case sum
      with assms show ?thesis by (rule plain_convertedOfSummary)
    next
      case tx
      from plain_ntriesOf [OF assms tx(1)] have n: "plain ntry" .
      from plain_convertedOfDetail [OF n plain_txDtlsArrOf [OF n tx(2)] tx(3)] show ?thesis .
    qed
  qed
  then show ?thesis
    by (auto simp: list_all_iff intro: plain_convertible)
qed

lemma mapStatement_plain: "plain stmt \<Longrightarrow> \<exists>st. mapStatement idx stmt = Inr st"
  by (rule mapStatement_convertible) (rule plain_convertedValues)


subsection \<open>Missing sources\<close>












subsection \<open>The parser on the sample values\<close>

lemma extractDate_balDated: "extractDate (get (balDated ''2023-01-31'') [''Dt'', ''Dt'']) = Some ''2023-01-31''"
  "extractDate (get (balDated ''2023-01-01'') [''Dt'', ''Dt'']) = Some ''2023-01-01''"
  by (simp_all add: balDated_def eval_defs)

lemma extractDate_ntryBooked:
  "extractDate (get (ntryBooked ''2023-02-02'') [''BookgDt'']) = Some ''2023-02-02''"
  "extractDate (get (ntryBooked ''2023-01-01'') [''BookgDt'']) = Some ''2023-01-01''"
  by (simp_all add: ntryBooked_def eval_defs)

lemma detailBlocks_ntryBooked: "detailBlocks (ntryBooked d) = []"
  by (simp add: detailBlocks_def ntryBooked_def get_Cons get_Nil)

lemma balDates_stmtBalChrono: "balDates stmtBalChrono = [''2023-01-01'', ''2023-01-31'']"
  by (simp add: balDates_def balanceBlocks_def stmtBalChrono_def truthyProp_def
        List.map_filter_simps extractDate_balDated)

lemma bookingDates_stmtChronoEntries:
  "bookingDates stmtChronoEntries = [''2023-01-01'', ''2023-02-02'']"
  by (simp add: bookingDates_def ntriesOf_def stmtChronoEntries_def truthyProp_def entryDates_def
        detailBlocks_ntryBooked List.map_filter_simps extractDate_ntryBooked)

lemma no_period_samples:
  "get stmtBalChrono [''FrToDt'', k] = None" "get stmtBalChrono [''CreDtTm''] = None"
  "get stmtChronoEntries [''FrToDt'', k] = None" "get stmtChronoEntries [''CreDtTm''] = None"
  "balDates stmtChronoEntries = []"
  by (simp_all add: stmtBalChrono_def stmtChronoEntries_def get_Cons get_Nil balDates_def
        balanceBlocks_def truthyProp_def List.map_filter_simps)

lemma dateOrd_samples:
  "dateOrd ''2023-01-01'' = 20230101" "dateOrd ''2023-01-31'' = 20230131"
  "dateOrd ''2023-02-02'' = 20230202"
  by (simp_all add: dateOrd_def decVal_def isDigit_def)


lemma detectNamespace_toString: "detectNamespace (documentTag ''toString'') = Some ''toString''"
  by (simp add: documentTag_def afterXmlns_def)



lemma inherited_toString: "inheritedNamespace (docWith ''toString'' v t)"
  by (simp add: inheritedNamespace_def docWith_def detectNamespace_toString inheritedKeys_def)



lemma balCode_balBlock: "balCode (balBlock code amt) = Some (Str code)"
  by (simp add: balCode_def balBlock_def get_Cons get_Nil)

lemma balAmount_balBlock:
  "balAmount (balBlock code amt) = Inr (if amt = [] then None else Some (parseFloat amt))"
  by (simp add: balAmount_def balBlock_def extractAmount_def truthyProp_def parseFloatV_def andThen_def)

lemma parseFloat_small:
  "parseFloat ''10'' = Num 10" "parseFloat ''20'' = Num 20" "parseFloat ''30'' = Num 30"
  by (simp_all add: eval_defs)

lemma showNat_1: "showNat (Suc 0) = ''1''"
  by code_simp

text \<open>The equations that run the statement and entry resolution on a concrete tree.\<close>

lemmas run_defs =
  mapStatement_def Let_def accountHolderOf_def accountIBANOf_def currencyOf_def
  sequenceNumberOf_def statementDateOf_def balDate_def truthyDate_def ntryDateFallback_def
  balancesOf_def
  summaryOf_def transactionsOf_def ntriesOf_def txDtlsArrOf_def mkTransaction_def ntryTypeOf_def
  ntryCurrencyOf_def descriptionParts_def pushIf_def strdOf_def descriptionOf_def
  descriptionAdditionalOf_def counterpartyNameOf_def counterpartyAccountOf_def partyName_def
  partyAccount_def hasRltdPties_def endToEndReferenceOf_def remittanceReferenceOf_def
  eval_defs showNat_1

section \<open>C1: number of transactions\<close>

text \<open>
  C1 at an entry whose \<open>NtryDtls\<close> block repeats, each block holding one \<open>TxDtls\<close>: the
  entry has two transaction-detail blocks, the parser reads \<open>TxDtls\<close> off the array of the
  two \<open>NtryDtls\<close>, finds none, and emits the one synthetic transaction with the entry's
  amount.
\<close>

theorem C1_repeated_entry_details:
  "children stmtRepeatedDtls ''Ntry'' = [ntryRepeatedDtls] \<and>
   txDetailBlocks ntryRepeatedDtls = [detailAmt ''40.00'', detailAmt ''60.00''] \<and>
   expectedTransactions stmtRepeatedDtls = 2 \<and>
   mapStatement 0 stmtRepeatedDtls =
     Inr \<lparr> statementTitle = ''Statement 1:  Account'', accountHolder = None, accountIBAN = None,
            currency = [], statementDate = [], sequenceNumber = None, openingBalance = None,
            closingBalance = None, numberOfCredits = None, totalCredits = None,
            numberOfDebits = None, totalDebits = None,
            transactions =
              [\<lparr> date = None, amount = Some (Num 100), txCurrency = Str ''EUR'',
                 txType = Some credit, counterpartyName = None, counterpartyAccountIBAN = None,
                 description = None, descriptionAdditional = None, endToEndReference = None,
                 remittanceReference = None, purpose = None \<rparr>] \<rparr>"
proof -
  have c: "children stmtRepeatedDtls ''Ntry'' = [ntryRepeatedDtls]"
    by (simp add: children_def stmtRepeatedDtls_def ntryRepeatedDtls_def)
  have b: "txDetailBlocks ntryRepeatedDtls = [detailAmt ''40.00'', detailAmt ''60.00'']"
    by (simp add: txDetailBlocks_def children_def ntryRepeatedDtls_def detailAmt_def)
  have m: "mapStatement 0 stmtRepeatedDtls =
     Inr \<lparr> statementTitle = ''Statement 1:  Account'', accountHolder = None, accountIBAN = None,
            currency = [], statementDate = [], sequenceNumber = None, openingBalance = None,
            closingBalance = None, numberOfCredits = None, totalCredits = None,
            numberOfDebits = None, totalDebits = None,
            transactions =
              [\<lparr> date = None, amount = Some (Num 100), txCurrency = Str ''EUR'',
                 txType = Some credit, counterpartyName = None, counterpartyAccountIBAN = None,
                 description = None, descriptionAdditional = None, endToEndReference = None,
                 remittanceReference = None, purpose = None \<rparr>] \<rparr>"
    by (simp add: run_defs stmtRepeatedDtls_def ntryRepeatedDtls_def)
  show ?thesis
    by (simp add: c b m expectedTransactions_def)
qed

text \<open>
  The count holds for every statement that the parser maps and whose entries have at most
  one \<open>NtryDtls\<close> block each (and whose \<open>Ntry\<close> is not the empty element).
\<close>

theorem transactions_count_single_details:
  assumes "mapStatement idx stmt = Inr st"
      and "getProp stmt ''Ntry'' \<noteq> Some (Str [])"
      and "\<forall>ntry \<in> set (children stmt ''Ntry''). singleNtryDtls ntry"
  shows "length (transactions st) = expectedTransactions stmt"
proof -
  have n: "ntriesOf stmt = children stmt ''Ntry''"
    using assms(2)
    by (cases "getProp stmt ''Ntry''")
       (auto simp: ntriesOf_def children_def truthyProp_def elim: truthy.elims)
  have "sum_list (map (\<lambda>ntry. max 1 (length (detailBlocks ntry))) (children stmt ''Ntry''))
      = sum_list (map (\<lambda>ntry. max 1 (length (txDetailBlocks ntry))) (children stmt ''Ntry''))"
    using assms(3) max1_blocks by (intro arg_cong [where f = sum_list] map_cong) auto
  moreover have "length (transactions st)
      = sum_list (map (\<lambda>ntry. max 1 (length (detailBlocks ntry))) (children stmt ''Ntry''))"
    using length_transactionsOf [OF mapStatement_Inr(10) [OF assms(1)]] by (simp add: n)
  ultimately show ?thesis
    by (simp only: expectedTransactions_def)
qed

theorem transactions_count_single_details_witness:
  "getProp stmtBatch ''Ntry'' \<noteq> Some (Str []) \<and>
   list_all singleNtryDtls (children stmtBatch ''Ntry'') \<and>
   expectedTransactions stmtBatch = 3 \<and>
   (\<exists>st. mapStatement 0 stmtBatch = Inr st \<and> length (transactions st) = 3)"
proof -
  have "list_all convertible (convertedValues stmtBatch)"
    by (simp add: convertedValues_def convertedOfSummary_def convertedOfDetail_def amountText_def
          pushedTexts_def nonEmpty_def balanceBlocks_def strdOf_def convertible_def
          ntriesOf_def txDtlsArrOf_def stmtBatch_def ntryPlain_def detailAmt_def eval_defs)
  then obtain st where st: "mapStatement 0 stmtBatch = Inr st"
    using mapStatement_convertible by blast
  have g: "getProp stmtBatch ''Ntry'' \<noteq> Some (Str [])"
    by (simp add: stmtBatch_def)
  have s: "\<forall>ntry \<in> set (children stmtBatch ''Ntry''). singleNtryDtls ntry"
    by (simp add: stmtBatch_def ntryPlain_def children_def singleNtryDtls_def)
  have e: "expectedTransactions stmtBatch = 3"
    by (simp add: stmtBatch_def ntryPlain_def detailAmt_def children_def expectedTransactions_def
          txDetailBlocks_def)
  from transactions_count_single_details [OF st g s] st g s e show ?thesis
    by (simp add: list_all_iff)
qed

section \<open>C2: statement date\<close>

text \<open>
  C2, as far as the code and its comments agree. The date of an output statement is the
  first of these that yields a date: the period end date-time, the period end date, the
  creation date-time, a balance date, the first booking date in document order (per
  detail its own or else the entry's, then the entry's); it is the empty string when none
  does. The balance date it takes is the latest one when the balance dates stand in
  calendar order, and the first booking date is the earliest one when the booking dates do.
\<close>

theorem C2_statement_date_tiers:
  assumes "mapStatement idx stmt = Inr st"
  shows
  "(extractDate (get stmt [''FrToDt'', ''ToDtTm'']) = Some a \<longrightarrow> statementDate st = a) \<and>
   (extractDate (get stmt [''FrToDt'', ''ToDtTm'']) = None \<longrightarrow>
      (extractDate (get stmt [''FrToDt'', ''ToDt'']) = Some b \<longrightarrow> statementDate st = b) \<and>
      (extractDate (get stmt [''FrToDt'', ''ToDt'']) = None \<longrightarrow>
         (extractDate (get stmt [''CreDtTm'']) = Some c \<longrightarrow> statementDate st = c) \<and>
         (extractDate (get stmt [''CreDtTm'']) = None \<longrightarrow>
            (balDates stmt \<noteq> [] \<longrightarrow>
               statementDate st \<in> set (balDates stmt) \<and>
               (sorted (map dateOrd (balDates stmt)) \<longrightarrow>
                  (\<forall>d \<in> set (balDates stmt). dateOrd d \<le> dateOrd (statementDate st)))) \<and>
            (balDates stmt = [] \<longrightarrow>
               (bookingDates stmt \<noteq> [] \<longrightarrow>
                  statementDate st = hd (bookingDates stmt) \<and>
                  (sorted (map dateOrd (bookingDates stmt)) \<longrightarrow>
                     (\<forall>d \<in> set (bookingDates stmt). dateOrd (statementDate st) \<le> dateOrd d))) \<and>
               (bookingDates stmt = [] \<longrightarrow> statementDate st = [])))))"
proof -
  have s: "statementDate st = statementDateOf stmt"
    using assms by (auto simp: mapStatement_def Let_def andThen_Inr_iff)
  have l: "balDates stmt \<noteq> [] \<Longrightarrow> last (balDates stmt) \<in> set (balDates stmt)"
    by simp
  show ?thesis
    using sorted_last_max [of dateOrd "balDates stmt"] sorted_hd_min [of dateOrd "bookingDates stmt"] l
    by (simp add: s statementDateOf_tiers)
qed

text \<open>
  The theorem at two statements in calendar order: balances dated 2023-01-01 and 2023-01-31
  give the statement date 2023-01-31, entries booked on 2023-01-01 and 2023-02-02 give
  2023-01-01.
\<close>

theorem C2_statement_date_tiers_witness:
  "sorted (map dateOrd (balDates stmtBalChrono)) \<and>
   mapStatement 0 stmtBalChrono = Inr (dated ''2023-01-31'') \<and>
   statementDate (dated ''2023-01-31'') = ''2023-01-31'' \<and>
   dateOrd ''2023-01-01'' \<le> dateOrd (statementDate (dated ''2023-01-31'')) \<and>
   sorted (map dateOrd (bookingDates stmtChronoEntries)) \<and>
   (\<exists>st. mapStatement 0 stmtChronoEntries = Inr st \<and> statementDate st = ''2023-01-01'' \<and>
         dateOrd (statementDate st) \<le> dateOrd ''2023-02-02'')"
proof -
  have b: "mapStatement 0 stmtBalChrono = Inr (dated ''2023-01-31'')"
    by (simp add: run_defs dated_def stmtBalChrono_def balDated_def)
  have "plain stmtChronoEntries"
    by (simp add: stmtChronoEntries_def ntryBooked_def)
  then obtain st where e: "mapStatement 0 stmtChronoEntries = Inr st"
    using mapStatement_plain by blast
  from C2_statement_date_tiers [OF b] C2_statement_date_tiers [OF e] b e show ?thesis
    by (simp add: balDates_stmtBalChrono bookingDates_stmtChronoEntries no_period_samples
          extractDate_None dateOrd_samples dated_def)
qed

text \<open>
  Against C2 as stated: with two entries booked on 2023-02-02 and 2023-01-01 in this
  order the statement date is the first one, as the comment of this tier says, which is
  not the earliest.
\<close>

theorem C2_document_order_counterexample:
  "bookingDates stmtTwoEntries = [''2023-02-02'', ''2023-01-01''] \<and>
   map_sum id (\<lambda>st. (statementDate st, map date (transactions st))) (mapStatement 0 stmtTwoEntries)
     = Inr (''2023-02-02'', [Some ''2023-02-02'', Some ''2023-01-01'']) \<and>
   dateOrd ''2023-01-01'' < dateOrd ''2023-02-02''"
proof -
  have e: "bookingDates stmtTwoEntries = [''2023-02-02'', ''2023-01-01'']"
    by (simp add: bookingDates_def ntriesOf_def stmtTwoEntries_def truthyProp_def entryDates_def
          detailBlocks_ntryBooked List.map_filter_simps extractDate_ntryBooked)
  have s2: "map_sum id (\<lambda>st. (statementDate st, map date (transactions st))) (mapStatement 0 stmtTwoEntries)
     = Inr (''2023-02-02'', [Some ''2023-02-02'', Some ''2023-01-01''])"
    by (simp add: run_defs stmtTwoEntries_def ntryBooked_def)
  have o: "dateOrd ''2023-01-01'' < dateOrd ''2023-02-02''"
    by (simp add: dateOrd_samples)
  show ?thesis
    using e s2 o by simp
qed

text \<open>
  The balance tier out of calendar order. The comment of this tier reads ``latest
  Bal/Dt/Dt''; with the balance dates 2023-01-31 and 2023-01-01 in this order the code
  takes the last one, which is not the latest.
\<close>

theorem balance_dates_out_of_order:
  "balDates stmtBalDates = [''2023-01-31'', ''2023-01-01''] \<and>
   mapStatement 0 stmtBalDates = Inr (dated ''2023-01-01'') \<and>
   dateOrd ''2023-01-01'' < dateOrd ''2023-01-31''"
proof -
  have b: "balDates stmtBalDates = [''2023-01-31'', ''2023-01-01'']"
    by (simp add: balDates_def balanceBlocks_def stmtBalDates_def truthyProp_def
          List.map_filter_simps extractDate_balDated)
  have s1: "mapStatement 0 stmtBalDates = Inr (dated ''2023-01-01'')"
    by (simp add: run_defs dated_def stmtBalDates_def balDated_def)
  show ?thesis
    using b s1 by (simp add: dateOrd_samples)
qed

section \<open>C3: fatal conditions\<close>




text \<open>
  The namespace test. The guard \<open>namespace in NAMESPACE_TO_XSD\<close> is there to refuse every
  namespace outside the table, but \<open>in\<close> also holds for the names the table inherits: for
  the namespace \<open>toString\<close> the guard lets the document pass and the parse ends in a
  \<open>TypeError\<close>, not in the typed error.
\<close>

theorem inherited_namespace_passes_guard:
  "detectNamespace (xml docToString) = Some ''toString'' \<and>
   \<not> supportedNamespace docToString \<and>
   parseCamt053 docToString = Inl TypeError"
proof -
  have d: "detectNamespace (xml docToString) = Some ''toString''"
    by (simp add: docToString_def docWith_def detectNamespace_toString)
  moreover have "parseCamt053 docToString = Inl TypeError"
    using parseCamt053_inherited [OF d] by (simp add: inheritedKeys_def)
  moreover have "\<not> supportedNamespace docToString"
    by (simp add: supportedNamespace_def d NAMESPACE_TO_XSD_def)
  ultimately show ?thesis by simp
qed

section \<open>C4: totality of the resolution\<close>




section \<open>C5: statement currency\<close>

text \<open>
  C5. The currency of an output statement is a string (the field's type), never
  \<open>null\<close>: it is the account currency \<open>Acct/Ccy\<close> when that is a bare string, the text of
  the value-holder when it is an object whose text \<open>_\<close> is a string, and the empty string
  when the field is absent, an array, or an object without string text.
\<close>

theorem C5_statement_currency:
  assumes "mapStatement idx stmt = Inr st"
  shows
  "(get stmt [''Acct'', ''Ccy''] = Some (Str c) \<longrightarrow> currency st = c) \<and>
   (get stmt [''Acct'', ''Ccy''] = Some (Obj p kvs) \<and> map_of kvs ''_'' = Some (Str t) \<longrightarrow>
      currency st = t) \<and>
   (get stmt [''Acct'', ''Ccy''] = None \<longrightarrow> currency st = []) \<and>
   (get stmt [''Acct'', ''Ccy''] = Some (Arr xs) \<longrightarrow> currency st = []) \<and>
   (get stmt [''Acct'', ''Ccy''] = Some (Obj p' kvs') \<and> (\<forall>t. map_of kvs' ''_'' \<noteq> Some (Str t)) \<longrightarrow>
      currency st = [])"
  by (auto simp: mapStatement_Inr(4) [OF assms] currencyOf_def split: option.splits jsval.splits)

theorem C5_statement_currency_witness:
  "mapStatement 0 (acctWith (Str ''EUR'')) = Inr (currencyOnly ''EUR'') \<and>
   get (acctWith (Str ''EUR'')) [''Acct'', ''Ccy''] = Some (Str ''EUR'') \<and>
   currency (currencyOnly ''EUR'') = ''EUR'' \<and>
   mapStatement 0 (acctWith (node [(''_'', Str ''SEK''), (''xmlns:x'', Str ''y'')])) = Inr (currencyOnly ''SEK'') \<and>
   get (acctWith (node [(''_'', Str ''SEK''), (''xmlns:x'', Str ''y'')])) [''Acct'', ''Ccy'']
     = Some (node [(''_'', Str ''SEK''), (''xmlns:x'', Str ''y'')]) \<and>
   currency (currencyOnly ''SEK'') = ''SEK'' \<and>
   mapStatement 0 (node []) = Inr (currencyOnly []) \<and>
   get (node []) [''Acct'', ''Ccy''] = None \<and>
   mapStatement 0 (acctWith (Arr [Str ''EUR'', Str ''USD''])) = Inr (currencyOnly []) \<and>
   mapStatement 0 (acctWith (node [(''xmlns:x'', Str ''y'')])) = Inr (currencyOnly []) \<and>
   currency (currencyOnly []) = []"
proof -
  have m: "mapStatement 0 (acctWith (Str ''EUR'')) = Inr (currencyOnly ''EUR'')"
    "mapStatement 0 (acctWith (node [(''_'', Str ''SEK''), (''xmlns:x'', Str ''y'')])) = Inr (currencyOnly ''SEK'')"
    "mapStatement 0 (node []) = Inr (currencyOnly [])"
    "mapStatement 0 (acctWith (Arr [Str ''EUR'', Str ''USD''])) = Inr (currencyOnly [])"
    "mapStatement 0 (acctWith (node [(''xmlns:x'', Str ''y'')])) = Inr (currencyOnly [])"
    by (simp_all add: run_defs acctWith_def currencyOnly_def)
  have g: "get (acctWith v) [''Acct'', ''Ccy''] = Some v" "get (node []) [''Acct'', ''Ccy''] = None" for v
    by (simp_all add: acctWith_def get_Cons get_Nil)
  from C5_statement_currency [OF m(1), of "''EUR''"]
       C5_statement_currency [OF m(2), of _ ObjectPrototype "[(''_'', Str ''SEK''), (''xmlns:x'', Str ''y'')]" "''SEK''"]
       C5_statement_currency [OF m(3)]
       C5_statement_currency [OF m(4), of _ _ _ _ "[Str ''EUR'', Str ''USD'']"]
       C5_statement_currency [OF m(5), of _ _ _ _ _ ObjectPrototype "[(''xmlns:x'', Str ''y'')]"]
  show ?thesis
    by (simp add: m g)
qed

section \<open>C6: description and additional description\<close>

text \<open>
  C6 at a detail whose remittance information has two unstructured texts: the candidates
  are the two texts, so the description is the first and the additional description the
  second. The parser reads \<open>RmtInf/Ustrd\<close> without looking for a list, pushes the list of
  the two texts as one part, and emits a transaction whose description is that list, not
  a text, and which has no additional description.
\<close>

theorem C6_repeated_unstructured_text:
  "entryDetails stmtTwoUstrd = [(ntryTwoUstrd, Some detailTwoUstrd)] \<and>
   candidateTexts ntryTwoUstrd (Some detailTwoUstrd) = [Str ''inv 1'', Str ''inv 2''] \<and>
   mapStatement 0 stmtTwoUstrd =
     Inr ((dated [])
            \<lparr> transactions :=
                [\<lparr> date = None, amount = Some (Num 100), txCurrency = Str ''EUR'',
                   txType = Some credit, counterpartyName = None, counterpartyAccountIBAN = None,
                   description = Some (Arr [Str ''inv 1'', Str ''inv 2'']),
                   descriptionAdditional = None, endToEndReference = None,
                   remittanceReference = None, purpose = None \<rparr>] \<rparr>)"
proof -
  have e: "entryDetails stmtTwoUstrd = [(ntryTwoUstrd, Some detailTwoUstrd)]"
    by (simp add: entryDetails_def detailsOf_def detailBlocks_def ntriesOf_def stmtTwoUstrd_def
          ntryTwoUstrd_def detailTwoUstrd_def eval_defs)
  have c: "candidateTexts ntryTwoUstrd (Some detailTwoUstrd) = [Str ''inv 1'', Str ''inv 2'']"
    by (simp add: candidateTexts_def descend_def children_def ntryTwoUstrd_def detailTwoUstrd_def)
  have m: "mapStatement 0 stmtTwoUstrd =
     Inr ((dated [])
            \<lparr> transactions :=
                [\<lparr> date = None, amount = Some (Num 100), txCurrency = Str ''EUR'',
                   txType = Some credit, counterpartyName = None, counterpartyAccountIBAN = None,
                   description = Some (Arr [Str ''inv 1'', Str ''inv 2'']),
                   descriptionAdditional = None, endToEndReference = None,
                   remittanceReference = None, purpose = None \<rparr>] \<rparr>)"
    by (simp add: run_defs dated_def stmtTwoUstrd_def ntryTwoUstrd_def detailTwoUstrd_def)
  show ?thesis
    by (simp only: e c m simp_thms)
qed

text \<open>
  The same with two structured blocks, each with its additional information: the parser
  reads \<open>AddtlRmtInf\<close> off the list of the two blocks, finds none, and both texts are
  lost.
\<close>

theorem repeated_structured_block:
  "entryDetails stmtTwoStrd = [(ntryTwoStrd, Some detailTwoStrd)] \<and>
   candidateTexts ntryTwoStrd (Some detailTwoStrd) = [Str ''part 1'', Str ''part 2''] \<and>
   mapStatement 0 stmtTwoStrd =
     Inr ((dated [])
            \<lparr> transactions :=
                [\<lparr> date = None, amount = Some (Num 100), txCurrency = Str ''EUR'',
                   txType = Some credit, counterpartyName = None, counterpartyAccountIBAN = None,
                   description = None,
                   descriptionAdditional = None, endToEndReference = None,
                   remittanceReference = None, purpose = None \<rparr>] \<rparr>)"
proof -
  have e: "entryDetails stmtTwoStrd = [(ntryTwoStrd, Some detailTwoStrd)]"
    by (simp add: entryDetails_def detailsOf_def detailBlocks_def ntriesOf_def stmtTwoStrd_def
          ntryTwoStrd_def detailTwoStrd_def eval_defs)
  have c: "candidateTexts ntryTwoStrd (Some detailTwoStrd) = [Str ''part 1'', Str ''part 2'']"
    by (simp add: candidateTexts_def descend_def children_def ntryTwoStrd_def detailTwoStrd_def)
  have m: "mapStatement 0 stmtTwoStrd =
     Inr ((dated [])
            \<lparr> transactions :=
                [\<lparr> date = None, amount = Some (Num 100), txCurrency = Str ''EUR'',
                   txType = Some credit, counterpartyName = None, counterpartyAccountIBAN = None,
                   description = None,
                   descriptionAdditional = None, endToEndReference = None,
                   remittanceReference = None, purpose = None \<rparr>] \<rparr>)"
    by (simp add: run_defs dated_def stmtTwoStrd_def ntryTwoStrd_def detailTwoStrd_def)
  show ?thesis
    by (simp only: e c m simp_thms)
qed

text \<open>
  The rule holds for every transaction of a mapped statement whose entry and detail repeat
  no source of a candidate. When the candidates are \<open>c # cs\<close>, the description is \<open>c\<close> and
  the additional description is the rest, each converted to a string, joined by \<open>" | "\<close>;
  it is absent when there is no rest. When there is no candidate the same rule applies to
  the fallback, which has at most one element.
\<close>

theorem description_split_unrepeated:
  assumes "mapStatement idx stmt = Inr st"
      and "i < length (entryDetails stmt)"
      and "entryDetails stmt ! i = (ntry, txDtls)"
      and "transactions st ! i = tx"
      and "singleTexts ntry txDtls"
  shows
  "(candidateTexts ntry txDtls = c # cs \<longrightarrow>
      description tx = Some c \<and>
      (cs = [] \<longrightarrow> descriptionAdditional tx = None) \<and>
      (cs \<noteq> [] \<longrightarrow> (\<exists>texts. toStrs cs = Some texts \<and>
                                descriptionAdditional tx = Some (join '' | '' texts))) \<and>
      (cs \<noteq> [] \<and> cs = map Str strings \<longrightarrow> descriptionAdditional tx = Some (join '' | '' strings))) \<and>
   (candidateTexts ntry txDtls = [] \<and> pushedFallback stmt ntry txDtls = [f] \<longrightarrow>
      description tx = Some f \<and> descriptionAdditional tx = None) \<and>
   (candidateTexts ntry txDtls = [] \<and> pushedFallback stmt ntry txDtls = [] \<longrightarrow>
      description tx = None \<and> descriptionAdditional tx = None)"
proof -
  from emitted_transactions [OF assms(1), THEN conjunct2] assms(2,3,4)
  have k: "mkTransaction stmt (currency st) ntry txDtls = Inr tx"
    by auto
  note m = mkTransaction_Inr [OF k]
  note q = candidateTexts_pushedTexts [OF assms(5)]
  have f: "filter truthy (descriptionParts stmt ntry txDtls) = descriptionParts stmt ntry txDtls"
    by (simp add: descriptionParts_texts pushedTexts_def pushedFallback_def filter_truthy_nonEmpty)
  have d: "description tx = (case descriptionParts stmt ntry txDtls of [] \<Rightarrow> None | x # rest \<Rightarrow> Some x)"
    by (simp add: m(7) descriptionOf_def f)
  have a: "(case descriptionParts stmt ntry txDtls of
              [] \<Rightarrow> Inr None
            | x # rest \<Rightarrow>
                if rest = [] then Inr None
                else (case toStrs rest of
                        None \<Rightarrow> Inl TypeError
                      | Some texts \<Rightarrow> Inr (Some (join '' | '' texts))))
           = Inr (descriptionAdditional tx)"
    using m(8) by (simp add: descriptionAdditionalOf_def f)
  have s: "toStrs (map Str strings) = Some strings" for strings
    by (induction strings) simp_all
  have 1: "candidateTexts ntry txDtls = c # cs \<longrightarrow>
      description tx = Some c \<and>
      (cs = [] \<longrightarrow> descriptionAdditional tx = None) \<and>
      (cs \<noteq> [] \<longrightarrow> (\<exists>texts. toStrs cs = Some texts \<and>
                                descriptionAdditional tx = Some (join '' | '' texts))) \<and>
      (cs \<noteq> [] \<and> cs = map Str strings \<longrightarrow> descriptionAdditional tx = Some (join '' | '' strings))"
    using a s [of strings]
    by (auto simp: d q descriptionParts_texts split: option.splits if_splits)
  have 2: "candidateTexts ntry txDtls = [] \<and> pushedFallback stmt ntry txDtls = [f] \<longrightarrow>
      description tx = Some f \<and> descriptionAdditional tx = None"
    using a by (auto simp: d q descriptionParts_texts)
  have 3: "candidateTexts ntry txDtls = [] \<and> pushedFallback stmt ntry txDtls = [] \<longrightarrow>
      description tx = None \<and> descriptionAdditional tx = None"
    using a by (auto simp: d q descriptionParts_texts)
  show ?thesis
    by (rule conjI [OF 1 conjI [OF 2 3]])
qed

text \<open>
  The rule at a statement with two entries: a detail with all four candidates, and an entry
  without details or candidates whose reference is the fallback.
\<close>

theorem description_split_sample:
  "entryDetails stmtTexts = [(ntryTexts, Some detailTexts), (ntryRefOnly, None)] \<and>
   singleTexts ntryTexts (Some detailTexts) \<and> singleTexts ntryRefOnly None \<and>
   candidateTexts ntryTexts (Some detailTexts)
     = [Str ''inv 1'', Str ''struct'', Str ''entry info'', Str ''more''] \<and>
   candidateTexts ntryRefOnly None = [] \<and>
   pushedFallback stmtTexts ntryRefOnly None = [Str ''REF1''] \<and>
   map_sum id (\<lambda>st. map (\<lambda>tx. (description tx, descriptionAdditional tx)) (transactions st))
       (mapStatement 0 stmtTexts)
     = Inr [(Some (Str ''inv 1''), Some ''struct | entry info | more''), (Some (Str ''REF1''), None)]"
proof -
  have e: "entryDetails stmtTexts = [(ntryTexts, Some detailTexts), (ntryRefOnly, None)]"
    by (simp add: entryDetails_def detailsOf_def detailBlocks_def ntriesOf_def stmtTexts_def
          ntryTexts_def ntryRefOnly_def detailTexts_def eval_defs)
  have s: "singleTexts ntryTexts (Some detailTexts)" "singleTexts ntryRefOnly None"
    by (simp_all add: singleTexts_def single_def ntryTexts_def ntryRefOnly_def detailTexts_def eval_defs)
  have c: "candidateTexts ntryTexts (Some detailTexts)
             = [Str ''inv 1'', Str ''struct'', Str ''entry info'', Str ''more'']"
          "candidateTexts ntryRefOnly None = []"
    by (simp_all add: candidateTexts_def descend_def children_def ntryTexts_def ntryRefOnly_def
          detailTexts_def)
  have f: "pushedFallback stmtTexts ntryRefOnly None = [Str ''REF1'']"
    by (simp add: pushedFallback_def nonEmpty_def stmtTexts_def ntryRefOnly_def eval_defs)
  have m: "map_sum id (\<lambda>st. map (\<lambda>tx. (description tx, descriptionAdditional tx)) (transactions st))
       (mapStatement 0 stmtTexts)
     = Inr [(Some (Str ''inv 1''), Some ''struct | entry info | more''), (Some (Str ''REF1''), None)]"
    by (simp add: run_defs stmtTexts_def ntryTexts_def ntryRefOnly_def detailTexts_def)
  show ?thesis
    by (simp only: e s c f m simp_thms)
qed

section \<open>C7: date, amount and currency of a transaction\<close>

text \<open>
  C7 at an entry whose \<open>NtryDtls\<close> block repeats, each block holding one \<open>TxDtls\<close> with
  its own amount: the entry has the two detail blocks with the amounts 40 and 60, the
  parser walks the one synthetic detail in their place, and the one transaction it emits
  has the amount 100 of the entry. No transaction has the amount of a detail block.
\<close>

theorem C7_repeated_details_own_amount:
  "txDetailBlocks ntryRepeatedDtls = [detailAmt ''40.00'', detailAmt ''60.00''] \<and>
   map (\<lambda>t. extractAmount (get t [''Amt''])) (txDetailBlocks ntryRepeatedDtls)
     = [Inr (Some (Num 40)), Inr (Some (Num 60))] \<and>
   extractAmount (get ntryRepeatedDtls [''Amt'']) = Inr (Some (Num 100)) \<and>
   entryDetails stmtRepeatedDtls = [(ntryRepeatedDtls, None)] \<and>
   map_sum id (\<lambda>st. map (\<lambda>tx. (date tx, amount tx, txCurrency tx)) (transactions st))
       (mapStatement 0 stmtRepeatedDtls)
     = Inr [(None, Some (Num 100), Str ''EUR'')]"
proof -
  have b: "txDetailBlocks ntryRepeatedDtls = [detailAmt ''40.00'', detailAmt ''60.00'']"
    by (simp add: txDetailBlocks_def children_def ntryRepeatedDtls_def detailAmt_def)
  have a: "map (\<lambda>t. extractAmount (get t [''Amt''])) [detailAmt ''40.00'', detailAmt ''60.00'']
     = [Inr (Some (Num 40)), Inr (Some (Num 60))]"
    by (simp add: detailAmt_def eval_defs)
  have n: "extractAmount (get ntryRepeatedDtls [''Amt'']) = Inr (Some (Num 100))"
    by (simp add: ntryRepeatedDtls_def eval_defs)
  have e: "entryDetails stmtRepeatedDtls = [(ntryRepeatedDtls, None)]"
    by (simp add: entryDetails_def detailsOf_def detailBlocks_def ntriesOf_def stmtRepeatedDtls_def
          ntryRepeatedDtls_def eval_defs)
  have m: "map_sum id (\<lambda>st. map (\<lambda>tx. (date tx, amount tx, txCurrency tx)) (transactions st))
       (mapStatement 0 stmtRepeatedDtls)
     = Inr [(None, Some (Num 100), Str ''EUR'')]"
    by (simp add: run_defs stmtRepeatedDtls_def ntryRepeatedDtls_def)
  show ?thesis
    by (simp only: b a n e m simp_thms)
qed

text \<open>
  The rule holds for every detail that the parser walks: the detail blocks of an entry
  with at most one \<open>NtryDtls\<close> block, or the synthetic one. For every transaction of a
  mapped statement, the date and amount are the detail's own when it has one and the
  entry's otherwise. Its currency is the \<open>Ccy\<close> attribute of the detail's amount when that
  is truthy and the entry baseline \<open>ntryCurrency\<close> otherwise; the baseline is the statement
  currency when that is not empty, and else the \<open>Ccy\<close> attribute of the entry's amount when
  it has a truthy one (the empty statement currency when it has none).
\<close>

theorem detail_before_entry:
  assumes "mapStatement idx stmt = Inr st"
      and "i < length (entryDetails stmt)"
      and "entryDetails stmt ! i = (ntry, txDtls)"
      and "transactions st ! i = tx"
  shows
  "(extractDate (getTx txDtls [''BookgDt'']) = Some d \<longrightarrow> date tx = Some d) \<and>
   (extractDate (getTx txDtls [''BookgDt'']) = None \<longrightarrow> date tx = extractDate (get ntry [''BookgDt''])) \<and>
   (extractAmount (getTx txDtls [''Amt'']) = Inr (Some a) \<longrightarrow> amount tx = Some a) \<and>
   (extractAmount (getTx txDtls [''Amt'']) = Inr None \<longrightarrow>
      extractAmount (get ntry [''Amt'']) = Inr (amount tx)) \<and>
   (getTx txDtls [''Amt'', ''Ccy''] = Some c \<and> truthy c \<longrightarrow> txCurrency tx = c) \<and>
   (\<not> truthyO (getTx txDtls [''Amt'', ''Ccy'']) \<longrightarrow> txCurrency tx = ntryCurrencyOf (currency st) ntry) \<and>
   (currency st \<noteq> [] \<longrightarrow> ntryCurrencyOf (currency st) ntry = Str (currency st)) \<and>
   (currency st = [] \<and> get ntry [''Amt''] = Some (Obj p kvs) \<and> map_of kvs ''Ccy'' = Some e \<and> truthy e \<longrightarrow>
      ntryCurrencyOf (currency st) ntry = e) \<and>
   (currency st = [] \<and> (\<forall>p kvs e. get ntry [''Amt''] = Some (Obj p kvs) \<and> map_of kvs ''Ccy'' = Some e \<longrightarrow> \<not> truthy e) \<longrightarrow>
      ntryCurrencyOf (currency st) ntry = Str [])"
proof -
  from emitted_transactions [OF assms(1), THEN conjunct2] assms(2,3,4)
  have k: "mkTransaction stmt (currency st) ntry txDtls = Inr tx"
    by auto
  define ccy where "ccy = currency st"
  note m = mkTransaction_Inr [OF k [folded ccy_def]]
  have n1: "ccy \<noteq> [] \<longrightarrow> ntryCurrencyOf ccy ntry = Str ccy"
    by (simp add: ntryCurrencyOf_def)
  have n2: "ccy = [] \<and> get ntry [''Amt''] = Some (Obj p kvs) \<and> map_of kvs ''Ccy'' = Some e \<and> truthy e \<longrightarrow>
      ntryCurrencyOf ccy ntry = e"
    by (simp add: ntryCurrencyOf_def truthyProp_def)
  have n3: "ccy = [] \<and> (\<forall>p kvs e. get ntry [''Amt''] = Some (Obj p kvs) \<and> map_of kvs ''Ccy'' = Some e \<longrightarrow> \<not> truthy e) \<longrightarrow>
      ntryCurrencyOf ccy ntry = Str []"
    by (auto simp: ntryCurrencyOf_def truthyProp_def split: option.splits jsval.splits)
  have am: "(extractAmount (getTx txDtls [''Amt'']) = Inr (Some a) \<longrightarrow> amount tx = Some a) \<and>
   (extractAmount (getTx txDtls [''Amt'']) = Inr None \<longrightarrow>
      extractAmount (get ntry [''Amt'']) = Inr (amount tx))"
    using m(2) by (auto simp: orElse_def)
  show ?thesis
    unfolding ccy_def [symmetric]
    using n1 n2 n3 am by (auto simp: m(1,3) orElse_def truthyO_def split: option.splits)
qed

text \<open>
  An entry with one \<open>NtryDtls\<close> block and no empty \<open>TxDtls\<close> element: the details that the
  parser walks are the detail blocks of the entry.
\<close>

theorem details_single_block:
  assumes "singleNtryDtls ntry" and "Str [] \<notin> set (txDetailBlocks ntry)"
  shows "detailBlocks ntry = txDetailBlocks ntry"
proof (cases "getProp ntry ''NtryDtls''")
  case None
  then show ?thesis
    by (simp add: txDetailBlocks_def children_def detailBlocks_def get_one)
next
  case (Some d)
  with assms(1) have nd: "arrayOf d = [d]"
    by (cases d) (simp_all add: singleNtryDtls_def)
  show ?thesis
  proof (cases "getProp d ''TxDtls''")
    case None
    then show ?thesis
      using Some nd
      by (simp add: txDetailBlocks_def children_def detailBlocks_def get_one truthyProp_def)
  next
    case t: (Some t)
    have "truthy d" using t by (cases d) simp_all
    moreover have "truthy t"
      using assms(2) Some nd t
      by (cases t) (auto simp: txDetailBlocks_def children_def)
    ultimately show ?thesis
      using Some nd t
      by (simp add: txDetailBlocks_def children_def detailBlocks_def get_one truthyProp_def)
  qed
qed

text \<open>On a batch entry with one \<open>NtryDtls\<close> block the two details give the two amounts.\<close>

theorem detail_before_entry_batch:
  "map_sum id (\<lambda>st. map (\<lambda>tx. (amount tx, txCurrency tx)) (transactions st)) (mapStatement 0 stmtBatch)
     = Inr [(Some (Num 40), Str ''EUR''), (Some (Num 60), Str ''EUR''), (Some (Num 5), Str [])]"
  by (simp add: run_defs stmtBatch_def detailAmt_def ntryPlain_def)

section \<open>C8: order of the balance blocks\<close>

text \<open>
  C8. Let the balance blocks of two statements differ by the swap of the blocks at
  \<open>i < j\<close>, and let the parser map both. When no two blocks share the opening code and no
  two the closing code, both balances are the same for the two statements; so they are,
  with any codes elsewhere, when the two blocks are neighbours and their codes differ. When
  both blocks carry the opening (closing) code and no later block does, the opening
  (closing) balance is the amount of the block that stands later in each sequence: last
  match wins.
\<close>

theorem C8_balance_order:
  assumes "getProp stmt ''Bal'' = Some (Arr bs)"
      and "getProp stmt' ''Bal'' = Some (Arr (bs[i := bs ! j, j := bs ! i]))"
      and "i < j" and "j < length bs"
      and "mapStatement n stmt = Inr st" and "mapStatement n stmt' = Inr st'"
  shows
    "(bookedCodesUnique bs \<longrightarrow>
        openingBalance st' = openingBalance st \<and> closingBalance st' = closingBalance st) \<and>
     (j = Suc i \<and> balCode (bs ! i) \<noteq> balCode (bs ! j) \<longrightarrow>
        openingBalance st' = openingBalance st \<and> closingBalance st' = closingBalance st) \<and>
     (balCode (bs ! i) = Some (Str ''OPBD'') \<and> balCode (bs ! j) = Some (Str ''OPBD'') \<and>
      (\<forall>k. j < k \<and> k < length bs \<longrightarrow> balCode (bs ! k) \<noteq> Some (Str ''OPBD'')) \<longrightarrow>
        balAmount (bs ! j) = Inr (openingBalance st) \<and>
        balAmount (bs ! i) = Inr (openingBalance st')) \<and>
     (balCode (bs ! i) = Some (Str ''CLBD'') \<and> balCode (bs ! j) = Some (Str ''CLBD'') \<and>
      (\<forall>k. j < k \<and> k < length bs \<longrightarrow> balCode (bs ! k) \<noteq> Some (Str ''CLBD'')) \<longrightarrow>
        balAmount (bs ! j) = Inr (closingBalance st) \<and>
        balAmount (bs ! i) = Inr (closingBalance st'))"
proof -
  let ?bs' = "bs[i := bs ! j, j := bs ! i]"
  have il: "i < length bs" using assms(3,4) by simp
  note r = balancesOf_Arr [OF assms(1) mapStatement_Inr(7) [OF assms(5)], simplified]
   and r' = balancesOf_Arr [OF assms(2) mapStatement_Inr(7) [OF assms(6)], simplified]
  note b = r [THEN conjunct1] r [THEN conjunct2]
   and b' = r' [THEN conjunct1] r' [THEN conjunct2]
  have same: "openingBalance st' = openingBalance st \<and> closingBalance st' = closingBalance st"
    if "lastWith ''OPBD'' ?bs' = lastWith ''OPBD'' bs" "lastWith ''CLBD'' ?bs' = lastWith ''CLBD'' bs"
    using b b' that by (auto split: option.splits)
  have perm: "mset ?bs' = mset bs"
    using mset_swap [of j bs i] il assms(4) by simp
  have unique: "bookedCodesUnique bs \<Longrightarrow> lastWith c ?bs' = lastWith c bs"
    if "c = ''OPBD'' \<or> c = ''CLBD''" for c
    using that lastWith_perm_unique [OF perm, of c] by (auto simp: bookedCodesUnique_def)
  have adjacent: "lastWith c ?bs' = lastWith c bs"
    if "j = Suc i" "balCode (bs ! i) \<noteq> balCode (bs ! j)" for c
  proof -
    have "bs = take i bs @ bs ! i # bs ! Suc i # drop (Suc (Suc i)) bs"
      using assms(4) that(1) by (metis Cons_nth_drop_Suc Suc_lessD id_take_nth_drop)
    moreover have "?bs' = take i bs @ bs ! Suc i # bs ! i # drop (Suc (Suc i)) bs"
      using assms(4) that(1) by (simp add: swap_adjacent)
    ultimately show ?thesis
      using lastWith_adjacent [of "bs ! i" "bs ! Suc i" c "take i bs" "drop (Suc (Suc i)) bs"] that
      by simp
  qed
  have later: "lastWith c bs = Some (bs ! j) \<and> lastWith c ?bs' = Some (bs ! i)"
    if "balCode (bs ! i) = Some (Str c)" "balCode (bs ! j) = Some (Str c)"
       "\<forall>k. j < k \<and> k < length bs \<longrightarrow> balCode (bs ! k) \<noteq> Some (Str c)" for c
  proof
    show "lastWith c bs = Some (bs ! j)"
      using lastWith_position [OF assms(4) that(2,3)] .
    have "lastWith c ?bs' = Some (?bs' ! j)"
      using that assms(3,4) by (intro lastWith_position) auto
    then show "lastWith c ?bs' = Some (bs ! i)"
      using assms(4) by simp
  qed
  have 1: "bookedCodesUnique bs \<longrightarrow>
        openingBalance st' = openingBalance st \<and> closingBalance st' = closingBalance st"
    using unique [of "''OPBD''"] unique [of "''CLBD''"] same by blast
  have 2: "j = Suc i \<and> balCode (bs ! i) \<noteq> balCode (bs ! j) \<longrightarrow>
        openingBalance st' = openingBalance st \<and> closingBalance st' = closingBalance st"
    using adjacent same by blast
  have 3: "balCode (bs ! i) = Some (Str ''OPBD'') \<and> balCode (bs ! j) = Some (Str ''OPBD'') \<and>
      (\<forall>k. j < k \<and> k < length bs \<longrightarrow> balCode (bs ! k) \<noteq> Some (Str ''OPBD'')) \<longrightarrow>
        balAmount (bs ! j) = Inr (openingBalance st) \<and>
        balAmount (bs ! i) = Inr (openingBalance st')"
    using later [of "''OPBD''"] b(1) b'(1) by auto
  have 4: "balCode (bs ! i) = Some (Str ''CLBD'') \<and> balCode (bs ! j) = Some (Str ''CLBD'') \<and>
      (\<forall>k. j < k \<and> k < length bs \<longrightarrow> balCode (bs ! k) \<noteq> Some (Str ''CLBD'')) \<longrightarrow>
        balAmount (bs ! j) = Inr (closingBalance st) \<and>
        balAmount (bs ! i) = Inr (closingBalance st')"
    using later [of "''CLBD''"] b(2) b'(2) by auto
  show ?thesis
    by (rule conjI [OF 1 conjI [OF 2 conjI [OF 3 4]]])
qed

theorem C8_balance_order_witness:
  "mapStatement 0 (balStmt [balBlock ''OPBD'' ''10'', balBlock ''CLBD'' ''20'', balBlock ''CLAV'' ''30''])
     = Inr (balanced (Some (Num 10)) (Some (Num 20))) \<and>
   mapStatement 0 (balStmt [balBlock ''CLAV'' ''30'', balBlock ''CLBD'' ''20'', balBlock ''OPBD'' ''10''])
     = Inr (balanced (Some (Num 10)) (Some (Num 20))) \<and>
   mapStatement 0 (balStmt [balBlock ''OPBD'' ''10'', balBlock ''CLBD'' ''20'', balBlock ''OPBD'' ''30''])
     = Inr (balanced (Some (Num 30)) (Some (Num 20))) \<and>
   mapStatement 0 (balStmt [balBlock ''CLBD'' ''20'', balBlock ''OPBD'' ''10'', balBlock ''OPBD'' ''30''])
     = Inr (balanced (Some (Num 30)) (Some (Num 20))) \<and>
   mapStatement 0 (balStmt [balBlock ''OPBD'' ''10'', balBlock ''OPBD'' ''20''])
     = Inr (balanced (Some (Num 20)) None) \<and>
   mapStatement 0 (balStmt [balBlock ''OPBD'' ''20'', balBlock ''OPBD'' ''10''])
     = Inr (balanced (Some (Num 10)) None) \<and>
   mapStatement 0 (balStmt [balBlock ''CLBD'' ''10'', balBlock ''CLBD'' ''20''])
     = Inr (balanced None (Some (Num 20))) \<and>
   mapStatement 0 (balStmt [balBlock ''CLBD'' ''20'', balBlock ''CLBD'' ''10''])
     = Inr (balanced None (Some (Num 10)))"
proof -
  have g: "getProp (balStmt bs) ''Bal'' = Some (Arr bs)" for bs
    by (simp add: balStmt_def)
  have a1: "mapStatement 0 (balStmt [balBlock ''OPBD'' ''10'', balBlock ''CLBD'' ''20'', balBlock ''CLAV'' ''30''])
              = Inr (balanced (Some (Num 10)) (Some (Num 20)))"
   and a2: "mapStatement 0 (balStmt [balBlock ''CLAV'' ''30'', balBlock ''CLBD'' ''20'', balBlock ''OPBD'' ''10''])
              = Inr (balanced (Some (Num 10)) (Some (Num 20)))"
   and b1: "mapStatement 0 (balStmt [balBlock ''OPBD'' ''10'', balBlock ''CLBD'' ''20'', balBlock ''OPBD'' ''30''])
              = Inr (balanced (Some (Num 30)) (Some (Num 20)))"
   and b2: "mapStatement 0 (balStmt [balBlock ''CLBD'' ''20'', balBlock ''OPBD'' ''10'', balBlock ''OPBD'' ''30''])
              = Inr (balanced (Some (Num 30)) (Some (Num 20)))"
   and c1: "mapStatement 0 (balStmt [balBlock ''OPBD'' ''10'', balBlock ''OPBD'' ''20''])
              = Inr (balanced (Some (Num 20)) None)"
   and c2: "mapStatement 0 (balStmt [balBlock ''OPBD'' ''20'', balBlock ''OPBD'' ''10''])
              = Inr (balanced (Some (Num 10)) None)"
   and d1: "mapStatement 0 (balStmt [balBlock ''CLBD'' ''10'', balBlock ''CLBD'' ''20''])
              = Inr (balanced None (Some (Num 20)))"
   and d2: "mapStatement 0 (balStmt [balBlock ''CLBD'' ''20'', balBlock ''CLBD'' ''10''])
              = Inr (balanced None (Some (Num 10)))"
    by (simp_all add: run_defs balanced_def balStmt_def balBlock_def)
  from C8_balance_order [OF g g _ _ a1, where i = 0 and j = "Suc (Suc 0)" and st' = "balanced (Some (Num 10)) (Some (Num 20))"]
       C8_balance_order [OF g g _ _ b1, where i = 0 and j = "Suc 0" and st' = "balanced (Some (Num 30)) (Some (Num 20))"]
       C8_balance_order [OF g g _ _ c1, where i = 0 and j = "Suc 0" and st' = "balanced (Some (Num 10)) None"]
       C8_balance_order [OF g g _ _ d1, where i = 0 and j = "Suc 0" and st' = "balanced None (Some (Num 10))"]
  show ?thesis
    by (simp add: a1 a2 b1 b2 c1 c2 d1 d2 bookedCodesUnique_def balCode_balBlock balAmount_balBlock
          parseFloat_small)
qed

section \<open>C9: amount extraction\<close>

text \<open>
  C9, as the code has it. \<open>extractAmount\<close> reads a non-empty string with \<open>parseFloat\<close>; it
  reads a value-holder exactly as it reads the holder's text, whatever attributes stand beside
  it; it is absent for \<open>null\<close>, the empty string, an array and an object without text. When
  the text has no numeric prefix the result is the number \<open>NaN\<close>, which is not absent.
\<close>

theorem C9_extractAmount_shapes:
  "extractAmount (Some (Str s)) = Inr (if s = [] then None else Some (parseFloat s)) \<and>
   (map_of kvs ''_'' = Some (Str t) \<longrightarrow> extractAmount (Some (Obj p kvs)) = extractAmount (Some (Str t))) \<and>
   (map_of kvs' ''_'' = None \<longrightarrow> extractAmount (Some (Obj p' kvs')) = Inr None) \<and>
   extractAmount (Some (Arr xs)) = Inr None \<and>
   extractAmount None = Inr None \<and>
   (u \<noteq> [] \<and> parseFloat u = NaN \<longrightarrow> extractAmount (Some (Str u)) = Inr (Some NaN))"
  by (simp add: extractAmount_def truthyProp_def parseFloatV_def andThen_def)

theorem C9_extractAmount_shapes_witness:
  "map_of [(''_'', Str ''12.50''), (''Ccy'', Str ''EUR'')] ''_'' = Some (Str ''12.50'') \<and>
   extractAmount (Some (node [(''_'', Str ''12.50''), (''Ccy'', Str ''EUR'')])) = Inr (Some (Num (25 / 2))) \<and>
   map_of [(''Ccy'', Str ''EUR'')] ''_'' = None \<and>
   extractAmount (Some (node [(''Ccy'', Str ''EUR'')])) = Inr None \<and>
   parseFloat ''abc'' = NaN \<and>
   extractAmount (Some (Str ''abc'')) = Inr (Some NaN)"
  using C9_extractAmount_shapes [of "''12.50''" "[(''_'', Str ''12.50''), (''Ccy'', Str ''EUR'')]"
      "''12.50''" ObjectPrototype "[(''Ccy'', Str ''EUR'')]" ObjectPrototype "[]" "''abc''"]
  by (simp add: parseFloat_abc parseFloat_12_50)

text \<open>
  Against C9 as stated: on text without a numeric prefix the parse fails and the result is
  \<open>NaN\<close>, not absent; and the digits a text declares after the point are not kept, since
  \<open>100.00\<close> and \<open>100\<close> give the same number.
\<close>

theorem C9_parse_failure_counterexample:
  "extractAmount (Some (Str ''abc'')) = Inr (Some NaN) \<and>
   extractAmount (Some (Str ''100.00'')) = Inr (Some (Num 100)) \<and>
   extractAmount (Some (Str ''100'')) = Inr (Some (Num 100))"
  by (simp add: extractAmount_def parseFloat_def isSpace_def isDigit_def decVal_def scale10_def signed_def)

section \<open>C10: transaction summary\<close>

text \<open>
  C10, as the code has it. In an output statement the count of credits (of debits) is
  absent exactly when the summary block or the credit (debit) sub-block is missing or
  falsy, an empty element being the falsy empty string. When both are truthy and the
  sub-block has no \<open>NbOfNtries\<close>, the count is 0, and the total is whatever \<open>Sum\<close> gives,
  absent when there is none.
\<close>

theorem C10_summary_counts:
  assumes "mapStatement idx stmt = Inr st"
  shows
  "(numberOfCredits st = None \<longleftrightarrow>
      (truthyProp stmt ''TxsSummry'' = None \<or>
       (\<exists>ts. truthyProp stmt ''TxsSummry'' = Some ts \<and> truthyProp ts ''TtlCdtNtries'' = None))) \<and>
   (numberOfDebits st = None \<longleftrightarrow>
      (truthyProp stmt ''TxsSummry'' = None \<or>
       (\<exists>ts. truthyProp stmt ''TxsSummry'' = Some ts \<and> truthyProp ts ''TtlDbtNtries'' = None))) \<and>
   (truthyProp stmt ''TxsSummry'' = Some ts \<and> truthyProp ts ''TtlCdtNtries'' = Some sub \<and>
    getProp sub ''NbOfNtries'' = None \<longrightarrow>
      numberOfCredits st = Some (Num 0) \<and> extractAmount (getProp sub ''Sum'') = Inr (totalCredits st)) \<and>
   (truthyProp stmt ''TxsSummry'' = Some ts' \<and> truthyProp ts' ''TtlDbtNtries'' = Some sub' \<and>
    getProp sub' ''NbOfNtries'' = None \<longrightarrow>
      numberOfDebits st = Some (Num 0) \<and> extractAmount (getProp sub' ''Sum'') = Inr (totalDebits st))"
proof -
  note m = mapStatement_Inr [OF assms]
  have z: "parseIntV (Str ''0'') = Inr (Num 0)"
    by (simp add: parseIntV_def parseInt_zero)
  have 1: "numberOfCredits st = None \<longleftrightarrow>
      (truthyProp stmt ''TxsSummry'' = None \<or>
       (\<exists>ts. truthyProp stmt ''TxsSummry'' = Some ts \<and> truthyProp ts ''TtlCdtNtries'' = None))"
    using summaryOf_None [OF m(8)] by simp
  have 2: "numberOfDebits st = None \<longleftrightarrow>
      (truthyProp stmt ''TxsSummry'' = None \<or>
       (\<exists>ts. truthyProp stmt ''TxsSummry'' = Some ts \<and> truthyProp ts ''TtlDbtNtries'' = None))"
    using summaryOf_None [OF m(9)] by simp
  have 3: "truthyProp stmt ''TxsSummry'' = Some ts \<and> truthyProp ts ''TtlCdtNtries'' = Some sub \<and>
    getProp sub ''NbOfNtries'' = None \<longrightarrow>
      numberOfCredits st = Some (Num 0) \<and> extractAmount (getProp sub ''Sum'') = Inr (totalCredits st)"
    using m(8) by (auto simp: summaryOf_Some z andThen_Inr_iff)
  have 4: "truthyProp stmt ''TxsSummry'' = Some ts' \<and> truthyProp ts' ''TtlDbtNtries'' = Some sub' \<and>
    getProp sub' ''NbOfNtries'' = None \<longrightarrow>
      numberOfDebits st = Some (Num 0) \<and> extractAmount (getProp sub' ''Sum'') = Inr (totalDebits st)"
    using m(9) by (auto simp: summaryOf_Some z andThen_Inr_iff)
  show ?thesis
    by (rule conjI [OF 1 conjI [OF 2 conjI [OF 3 4]]])
qed

theorem C10_summary_counts_witness:
  "truthyProp summaryCreditSum ''TxsSummry'' =
      Some (node [(''TtlCdtNtries'', node [(''Sum'', Str ''7.5'')]), (''TtlDbtNtries'', Str '' '')]) \<and>
   mapStatement 0 summaryCreditSum =
     Inr ((dated []) \<lparr> numberOfCredits := Some (Num 0), totalCredits := Some (Num (15 / 2)),
                       numberOfDebits := Some (Num 0), totalDebits := None \<rparr>)"
proof -
  have t: "truthyProp summaryCreditSum ''TxsSummry'' =
      Some (node [(''TtlCdtNtries'', node [(''Sum'', Str ''7.5'')]), (''TtlDbtNtries'', Str '' '')])"
    by (simp add: summaryCreditSum_def truthyProp_def)
  have m: "mapStatement 0 summaryCreditSum =
     Inr \<lparr> statementTitle = ''Statement 1:  Account'', accountHolder = None, accountIBAN = None,
            currency = [], statementDate = [], sequenceNumber = None, openingBalance = None,
            closingBalance = None, numberOfCredits = Some (Num 0), totalCredits = Some (Num (15 / 2)),
            numberOfDebits = Some (Num 0), totalDebits = None, transactions = [] \<rparr>"
    by (simp add: run_defs summaryCreditSum_def)
  from C10_summary_counts [OF m,
      of "node [(''TtlCdtNtries'', node [(''Sum'', Str ''7.5'')]), (''TtlDbtNtries'', Str '' '')]"
         "node [(''Sum'', Str ''7.5'')]"
         "node [(''TtlCdtNtries'', node [(''Sum'', Str ''7.5'')]), (''TtlDbtNtries'', Str '' '')]"
         "Str '' ''"]
  show ?thesis
    by (simp add: t m dated_def)
qed

text \<open>
  Against C10 as stated: a summary whose credit sub-block is the empty element
  \<open><TtlCdtNtries/>\<close> contains the sub-block, which lacks the count element, and yet the count
  is absent, not 0.
\<close>

theorem C10_empty_subblock_counterexample:
  "getProp summaryEmptyCredit ''TxsSummry'' = Some (node [(''TtlCdtNtries'', Str [])]) \<and>
   getProp (node [(''TtlCdtNtries'', Str [])]) ''TtlCdtNtries'' = Some (Str []) \<and>
   getProp (Str []) ''NbOfNtries'' = None \<and>
   mapStatement 0 summaryEmptyCredit = Inr (dated [])"
  by (simp add: summaryEmptyCredit_def run_defs dated_def)

end
